theory Spec2Isabelle
  imports Complex_Main "HOL-Library.Sublist" "HOL-Library.Word"
begin

section \<open>Strings and files\<close>

text \<open>
  A JavaScript string is modelled as a \<open>string\<close>. \<open>toLowerCase\<close> maps the
  letters A to Z to a to z and leaves every other character alone; no character outside
  ASCII lower-cases to one of the characters of \<open>.mp3\<close>, so the test
  \<open>name.toLowerCase().endsWith('.mp3')\<close> is decided by the ASCII letters alone.
\<close>

definition toLowerChar :: "char \<Rightarrow> char" where
  "toLowerChar c =
     (case map_of (zip ''ABCDEFGHIJKLMNOPQRSTUVWXYZ'' ''abcdefghijklmnopqrstuvwxyz'') c of
        Some d \<Rightarrow> d
      | None \<Rightarrow> c)"

definition toLowerCase :: "string \<Rightarrow> string" where
  "toLowerCase s = map toLowerChar s"

text \<open>\<open>s.endsWith(ext)\<close>: the last \<open>ext.length\<close> characters of \<open>s\<close> are \<open>ext\<close>.\<close>

definition endsWith :: "string \<Rightarrow> string \<Rightarrow> bool" where
  "endsWith s ext = (length ext \<le> length s \<and> drop (length s - length ext) s = ext)"

text \<open>The browser's \<open>File\<close>: the three properties the program reads.\<close>

record jsfile =
  file_name :: string
  file_type :: string
  file_size :: nat

section \<open>File validation\<close>

text \<open>
  \<open>validateAudioFile\<close> (audio utilities). A missing file (\<open>!file\<close>) is \<open>None\<close>.
\<close>

definition validateAudioFile :: "jsfile option \<Rightarrow> bool" where
  "validateAudioFile fo =
     (case fo of
        None \<Rightarrow> False
      | Some f \<Rightarrow>
          (let validTypes = [''audio/mp3'', ''audio/mpeg''];
               validExtensions = [''.mp3''];
               hasValidType = (file_type f \<in> set validTypes);
               hasValidExtension =
                 list_ex (\<lambda>ext. endsWith (toLowerCase (file_name f)) ext) validExtensions
           in hasValidType \<or> hasValidExtension))"

text \<open>
  \<open>handleFileSelect\<close> (FileUpload component). Its effects are the error message it
  leaves in the component state and the file it hands to \<open>onFileSelect\<close>, if any;
  the model returns both.
\<close>

definition handleFileSelect :: "jsfile option \<Rightarrow> string \<times> jsfile option" where
  "handleFileSelect fo =
     (case fo of
        None \<Rightarrow> ('''', None)
      | Some f \<Rightarrow>
          if file_type f \<noteq> ''audio/mpeg'' \<and> \<not> endsWith (toLowerCase (file_name f)) ''.mp3''
          then (''Please select an MP3 file only'', None)
          else if file_size f > 50 * 1024 * 1024
          then (''File size must be less than 50MB'', None)
          else ('''', Some f))"

text \<open>
  \<open>handleFileUpload\<close> (page): the files of the input event that are kept for reading.
\<close>

definition mp3Files :: "jsfile list \<Rightarrow> jsfile list" where
  "mp3Files files = filter (\<lambda>f. file_type f = ''audio/mpeg'') files"

text \<open>
  The acceptance rule in the words of the specification: MIME type audio/mp3 or
  audio/mpeg, or a name ending case-insensitively in .mp3; and at most 50MB.
\<close>

definition spec_accepted :: "jsfile \<Rightarrow> bool" where
  "spec_accepted f =
     ((file_type f = ''audio/mp3'' \<or> file_type f = ''audio/mpeg''
        \<or> suffix ''.mp3'' (toLowerCase (file_name f)))
      \<and> file_size f \<le> 50 * 1024 * 1024)"

section \<open>Numbers and time formatting\<close>

text \<open>
  A JavaScript number is a finite value, NaN or an infinity. Finite values are exact
  reals here: the model does not round to binary64.
\<close>

datatype number = Fin real | NaN | PosInfinity | NegInfinity

text \<open>An argument that may be missing: \<open>None\<close> is \<open>undefined\<close>, which converts to NaN.\<close>

definition toNumber :: "number option \<Rightarrow> number" where
  "toNumber v = (case v of None \<Rightarrow> NaN | Some n \<Rightarrow> n)"

text \<open>\<open>!v\<close> on a number or undefined: undefined, 0 and NaN are falsy.\<close>

definition falsy :: "number option \<Rightarrow> bool" where
  "falsy v = (case v of None \<Rightarrow> True | Some NaN \<Rightarrow> True | Some (Fin x) \<Rightarrow> x = 0 | Some _ \<Rightarrow> False)"

definition isNaN :: "number option \<Rightarrow> bool" where
  "isNaN v = (toNumber v = NaN)"

text \<open>\<open>x / 60\<close> and \<open>x % 60\<close>; the remainder takes the sign of the dividend.\<close>

definition div60 :: "number \<Rightarrow> number" where
  "div60 n = (case n of Fin x \<Rightarrow> Fin (x / 60) | other \<Rightarrow> other)"

definition rem60 :: "number \<Rightarrow> number" where
  "rem60 n =
     (case n of
        Fin x \<Rightarrow> Fin (if 0 \<le> x then x - 60 * of_int \<lfloor>x / 60\<rfloor>
                      else x + 60 * of_int \<lfloor>- x / 60\<rfloor>)
      | _ \<Rightarrow> NaN)"

definition Math_floor :: "number \<Rightarrow> number" where
  "Math_floor n = (case n of Fin x \<Rightarrow> Fin (of_int \<lfloor>x\<rfloor>) | other \<Rightarrow> other)"

fun dec :: "nat \<Rightarrow> string" where
  "dec n = (if n < 10 then [''0123456789'' ! n]
            else dec (n div 10) @ [''0123456789'' ! (n mod 10)])"

text \<open>
  Number to string, for the integer-valued numbers that \<open>Math.floor\<close> returns: decimal
  digits, as JavaScript prints an integer below \<open>10^21\<close>.
\<close>

definition toString :: "number \<Rightarrow> string" where
  "toString n =
     (case n of
        Fin x \<Rightarrow> (if x < 0 then ''-'' else '''') @ dec (nat \<bar>\<lfloor>x\<rfloor>\<bar>)
      | NaN \<Rightarrow> ''NaN''
      | PosInfinity \<Rightarrow> ''Infinity''
      | NegInfinity \<Rightarrow> ''-Infinity'')"

definition padStart :: "nat \<Rightarrow> char \<Rightarrow> string \<Rightarrow> string" where
  "padStart n c s = replicate (n - length s) c @ s"

text \<open>\<open>formatTime\<close> of the audio utilities.\<close>

definition formatTime :: "number option \<Rightarrow> string" where
  "formatTime seconds =
     (if falsy seconds \<or> isNaN seconds then ''0:00''
      else
        (let mins = Math_floor (div60 (toNumber seconds));
             secs = Math_floor (rem60 (toNumber seconds))
         in toString mins @ '':'' @ padStart 2 CHR ''0'' (toString secs)))"

text \<open>\<open>formatTime\<close> of the page (Home): no guard.\<close>

definition formatTime_Home :: "number option \<Rightarrow> string" where
  "formatTime_Home time =
     (let minutes = Math_floor (div60 (toNumber time));
          seconds = Math_floor (rem60 (toNumber time))
      in toString minutes @ '':'' @ padStart 2 CHR ''0'' (toString seconds))"

text \<open>\<open>formatTime\<close> of the MusicPlayer component.\<close>

definition formatTime_MusicPlayer :: "number option \<Rightarrow> string" where
  "formatTime_MusicPlayer time =
     (if isNaN time then ''0:00''
      else
        (let minutes = Math_floor (div60 (toNumber time));
             seconds = Math_floor (rem60 (toNumber time))
         in toString minutes @ '':'' @ padStart 2 CHR ''0'' (toString seconds)))"

section \<open>Frequency data\<close>

text \<open>
  \<open>getAverageFrequency\<close>: the argument is a \<open>Uint8Array\<close>, a list of bytes, or
  null (\<open>None\<close>). The sum and the quotient are exact.
\<close>

type_synonym byte = "8 word"

definition getAverageFrequency :: "byte list option \<Rightarrow> real" where
  "getAverageFrequency frequencyData =
     (case frequencyData of
        None \<Rightarrow> 0
      | Some xs \<Rightarrow>
          if length xs = 0 then 0
          else
            (let sum = foldl (\<lambda>acc v. acc + real (unat v)) 0 xs
             in sum / real (length xs)))"

section \<open>Playlist navigation (MusicPlayer)\<close>

text \<open>A track as the MusicPlayer component reads it; the id is a number.\<close>

record track =
  track_id :: real
  track_name :: string
  track_url :: string

text \<open>\<open>Array.prototype.findIndex\<close>: the first index whose element passes, or -1.\<close>

fun findIndexFrom :: "('a \<Rightarrow> bool) \<Rightarrow> 'a list \<Rightarrow> int \<Rightarrow> int" where
  "findIndexFrom P [] i = - 1"
| "findIndexFrom P (x # xs) i = (if P x then i else findIndexFrom P xs (i + 1))"

definition findIndex :: "('a \<Rightarrow> bool) \<Rightarrow> 'a list \<Rightarrow> int" where
  "findIndex P xs = findIndexFrom P xs 0"

text \<open>\<open>xs[i]\<close>: \<open>undefined\<close> (\<open>None\<close>) outside the array.\<close>

definition at_index :: "'a list \<Rightarrow> int \<Rightarrow> 'a option" where
  "at_index xs i = (if 0 \<le> i \<and> i < int (length xs) then Some (xs ! nat i) else None)"

text \<open>What a handler did with the \<open>onTrackChange\<close> callback.\<close>

datatype 'a call = NotCalled | Called 'a

text \<open>
  \<open>track.id === currentTrack?.id\<close>: with no current track the right-hand side is
  undefined, which no number equals.
\<close>

definition same_id :: "track option \<Rightarrow> track \<Rightarrow> bool" where
  "same_id currentTrack t =
     (case currentTrack of None \<Rightarrow> False | Some c \<Rightarrow> track_id t = track_id c)"

definition handlePrevious :: "track list option \<Rightarrow> track option \<Rightarrow> track option call" where
  "handlePrevious playlist currentTrack =
     (case playlist of
        None \<Rightarrow> NotCalled
      | Some pl \<Rightarrow>
          if length pl = 0 then NotCalled
          else
            (let currentIndex = findIndex (same_id currentTrack) pl;
                 prevIndex = (if currentIndex > 0 then currentIndex - 1
                              else int (length pl) - 1)
             in Called (at_index pl prevIndex)))"

definition handleNext :: "track list option \<Rightarrow> track option \<Rightarrow> track option call" where
  "handleNext playlist currentTrack =
     (case playlist of
        None \<Rightarrow> NotCalled
      | Some pl \<Rightarrow>
          if length pl = 0 then NotCalled
          else
            (let currentIndex = findIndex (same_id currentTrack) pl;
                 nextIndex = (if currentIndex < int (length pl) - 1 then currentIndex + 1
                              else 0)
             in Called (at_index pl nextIndex)))"

section \<open>JavaScript values, JSON and local storage\<close>

text \<open>
  The values the program stores and serialises. An object is the list of its own
  enumerable properties in order, with distinct keys; a \<open>File\<close> is a host object
  with no own enumerable property. Numbers are finite.
\<close>

datatype jsval =
    VUndefined
  | VNull
  | VBool bool
  | VNum real
  | VStr string
  | VArr "jsval list"
  | VObj "(string \<times> jsval) list"
  | VFile jsfile

text \<open>A JSON document.\<close>

datatype json =
    JNull
  | JBool bool
  | JNum real
  | JStr string
  | JArr "json list"
  | JObj "(string \<times> json) list"

text \<open>
  What \<open>JSON.stringify\<close> serialises a value as: nothing for \<open>undefined\<close> on its own,
  \<open>null\<close> for \<open>undefined\<close> in an array, no property for an undefined property of an
  object, and the empty object for a \<open>File\<close>, which has no own enumerable property.
\<close>

fun serialize :: "jsval \<Rightarrow> json option" where
  "serialize VUndefined = None"
| "serialize VNull = Some JNull"
| "serialize (VBool b) = Some (JBool b)"
| "serialize (VNum x) = Some (JNum x)"
| "serialize (VStr s) = Some (JStr s)"
| "serialize (VArr xs) =
     Some (JArr (map (\<lambda>x. case serialize x of None \<Rightarrow> JNull | Some j \<Rightarrow> j) xs))"
| "serialize (VObj ps) =
     Some (JObj (concat (map (\<lambda>p. case serialize (snd p) of
                                     None \<Rightarrow> []
                                   | Some j \<Rightarrow> [(fst p, j)]) ps)))"
| "serialize (VFile f) = Some (JObj [])"

text \<open>The value \<open>JSON.parse\<close> builds from a document.\<close>

fun revive :: "json \<Rightarrow> jsval" where
  "revive JNull = VNull"
| "revive (JBool b) = VBool b"
| "revive (JNum x) = VNum x"
| "revive (JStr s) = VStr s"
| "revive (JArr xs) = VArr (map revive xs)"
| "revive (JObj ps) = VObj (map (\<lambda>p. (fst p, revive (snd p))) ps)"

text \<open>
  A string kept in local storage, seen through \<open>JSON.parse\<close>: \<open>JSON_text j\<close> is a
  text of the document \<open>j\<close>, as \<open>JSON.stringify\<close> writes it; \<open>Other_text s\<close> is a
  string \<open>s\<close> that is no JSON text (the empty string is one).
\<close>

datatype item = JSON_text json | Other_text string

datatype exn =
    SyntaxError
  | QuotaExceededError
  | TypeError
  | InvalidStateError
  | NotAllowedError
  | Error string

definition JSON_stringify :: "jsval \<Rightarrow> item option" where
  "JSON_stringify v = map_option JSON_text (serialize v)"

definition JSON_parse :: "item \<Rightarrow> exn + jsval" where
  "JSON_parse t = (case t of JSON_text j \<Rightarrow> Inr (revive j) | Other_text s \<Rightarrow> Inl SyntaxError)"

text \<open>
  \<open>setItem\<close> stores the string of its argument; \<open>undefined\<close> becomes the string
  \<open>undefined\<close>.
\<close>

definition String_of :: "item option \<Rightarrow> item" where
  "String_of t = (case t of None \<Rightarrow> Other_text ''undefined'' | Some i \<Rightarrow> i)"

text \<open>Truthiness of a stored string: only the empty string is falsy.\<close>

definition truthy :: "item \<Rightarrow> bool" where
  "truthy t = (case t of Other_text s \<Rightarrow> s \<noteq> [] | JSON_text j \<Rightarrow> True)"

text \<open>
  The browser as the program sees it: the items of local storage, the host's decision
  whether a write fits the quota, and the console.
\<close>

record browser =
  localStorage :: "string \<rightharpoonup> item"
  quota_ok :: "(string \<rightharpoonup> item) \<Rightarrow> string \<Rightarrow> item \<Rightarrow> bool"
  console :: "string list"

definition getItem :: "browser \<Rightarrow> string \<Rightarrow> item option" where
  "getItem b key = localStorage b key"

definition setItem :: "browser \<Rightarrow> string \<Rightarrow> item \<Rightarrow> exn + browser" where
  "setItem b key v =
     (if quota_ok b (localStorage b) key v
      then Inr (b\<lparr>localStorage := (localStorage b)(key \<mapsto> v)\<rparr>)
      else Inl QuotaExceededError)"

definition console_error :: "string \<Rightarrow> browser \<Rightarrow> browser" where
  "console_error msg b = b\<lparr>console := console b @ [msg]\<rparr>"

text \<open>\<open>try { body } catch (error) { handler }\<close>.\<close>

definition try_catch :: "exn + 'a \<Rightarrow> (exn \<Rightarrow> exn + 'a) \<Rightarrow> exn + 'a" where
  "try_catch body handler = (case body of Inl e \<Rightarrow> handler e | Inr v \<Rightarrow> Inr v)"

text \<open>\<open>obj[key] = v\<close> on a property list: an own property keeps its place.\<close>

fun set_prop :: "string \<Rightarrow> jsval \<Rightarrow> (string \<times> jsval) list \<Rightarrow> (string \<times> jsval) list" where
  "set_prop k v [] = [(k, v)]"
| "set_prop k v (p # ps) = (if fst p = k then (k, v) # ps else p # set_prop k v ps)"

subsection \<open>Storage utilities\<close>

text \<open>
  \<open>saveToLocalStorage\<close>; \<open>now\<close> is what \<open>Date.now()\<close> returns. The spread copies the
  properties of \<open>audioData\<close>, then \<open>timestamp\<close> is set.
\<close>

definition saveToLocalStorage :: "real \<Rightarrow> string \<Rightarrow> (string \<times> jsval) list \<Rightarrow> browser \<Rightarrow> exn + browser" where
  "saveToLocalStorage now key audioData b =
     try_catch
       (let dataToStore = VObj (set_prop ''timestamp'' (VNum now) audioData)
        in setItem b key (String_of (JSON_stringify dataToStore)))
       (\<lambda>error. Inr (console_error ''Failed to save to localStorage:'' b))"

text \<open>\<open>loadFromLocalStorage\<close>: the value returned and the browser afterwards.\<close>

definition loadFromLocalStorage :: "string \<Rightarrow> browser \<Rightarrow> exn + jsval \<times> browser" where
  "loadFromLocalStorage key b =
     try_catch
       (case getItem b key of
          None \<Rightarrow> Inr (VNull, b)
        | Some stored \<Rightarrow>
            if truthy stored
            then (case JSON_parse stored of
                    Inl e \<Rightarrow> Inl e
                  | Inr v \<Rightarrow> Inr (v, b))
            else Inr (VNull, b))
       (\<lambda>error. Inr (VNull, console_error ''Failed to load from localStorage:'' b))"

definition removeFromLocalStorage :: "string \<Rightarrow> browser \<Rightarrow> exn + browser" where
  "removeFromLocalStorage key b =
     try_catch
       (Inr (b\<lparr>localStorage := (localStorage b)(key := None)\<rparr>))
       (\<lambda>error. Inr (console_error ''Failed to remove from localStorage:'' b))"

subsection \<open>The page's playlist effects\<close>

text \<open>
  The effect that loads the playlist on mount: the new playlist state, or the exception
  that leaves the effect. There is no \<open>try\<close> around it.
\<close>

definition Home_load_effect :: "browser \<Rightarrow> jsval \<Rightarrow> exn + jsval" where
  "Home_load_effect b playlist =
     (case getItem b ''musicPlayerPlaylist'' of
        None \<Rightarrow> Inr playlist
      | Some savedPlaylist \<Rightarrow>
          if truthy savedPlaylist
          then (case JSON_parse savedPlaylist of
                  Inl e \<Rightarrow> Inl e
                | Inr v \<Rightarrow> Inr v)
          else Inr playlist)"

text \<open>The effect that saves the playlist whenever it changes.\<close>

definition Home_save_effect :: "jsval \<Rightarrow> browser \<Rightarrow> exn + browser" where
  "Home_save_effect playlist b =
     setItem b ''musicPlayerPlaylist'' (String_of (JSON_stringify playlist))"

subsection \<open>Track creation\<close>

text \<open>\<open>Object.keys(v)\<close> and \<open>v[key]\<close> for an object; a missing property is undefined.\<close>

definition keys :: "jsval \<Rightarrow> string list" where
  "keys v = (case v of VObj ps \<Rightarrow> map fst ps | _ \<Rightarrow> [])"

definition get_prop :: "string \<Rightarrow> jsval \<Rightarrow> jsval" where
  "get_prop k v =
     (case v of
        VObj ps \<Rightarrow> (case map_of ps k of None \<Rightarrow> VUndefined | Some x \<Rightarrow> x)
      | _ \<Rightarrow> VUndefined)"

text \<open>\<open>s.replace(pat, rep)\<close> with a string pattern: the first occurrence only.\<close>

fun replace_first :: "string \<Rightarrow> string \<Rightarrow> string \<Rightarrow> string" where
  "replace_first pat rep [] = (if pat = [] then rep else [])"
| "replace_first pat rep (c # cs) =
     (if prefix pat (c # cs) then rep @ drop (length pat) (c # cs)
      else c # replace_first pat rep cs)"

text \<open>
  \<open>name.replace(/\.[^/.]+$/, '')\<close>: the match is the last dot with what follows it,
  when that is not empty and holds no slash.
\<close>

definition remove_extension :: "string \<Rightarrow> string" where
  "remove_extension n =
     (let ext = rev (takeWhile (\<lambda>c. c \<noteq> CHR ''.'') (rev n))
      in if length ext < length n \<and> ext \<noteq> [] \<and> CHR ''/'' \<notin> set ext
         then take (length n - length ext - 1) n
         else n)"

text \<open>
  The track that \<open>reader.onload\<close> builds in \<open>handleFileUpload\<close>: \<open>now\<close> and
  \<open>random\<close> are what \<open>Date.now()\<close> and \<open>Math.random()\<close> return, \<open>result\<close> is the data
  URL the reader produced.
\<close>

definition newTrack :: "real \<Rightarrow> real \<Rightarrow> jsfile \<Rightarrow> string \<Rightarrow> jsval" where
  "newTrack now random file result =
     VObj [(''id'', VNum (now + random)),
           (''name'', VStr (replace_first ''.mp3'' '''' (file_name file))),
           (''url'', VStr result),
           (''file'', VFile file)]"

text \<open>\<open>[...prev, x]\<close>: an array or a string spreads, another value is not iterable.\<close>

definition spread_append :: "jsval \<Rightarrow> jsval \<Rightarrow> exn + jsval" where
  "spread_append prev x =
     (case prev of
        VArr xs \<Rightarrow> Inr (VArr (xs @ [x]))
      | VStr s \<Rightarrow> Inr (VArr (map (\<lambda>c. VStr [c]) s @ [x]))
      | _ \<Rightarrow> Inl TypeError)"

record page =
  p_playlist :: jsval
  p_currentTrack :: "jsval option"

text \<open>
  \<open>reader.onload\<close>: \<open>captured\<close> is the \<open>currentTrack\<close> of the render in which
  \<open>handleFileUpload\<close> ran.
\<close>

definition reader_onload :: "real \<Rightarrow> real \<Rightarrow> jsfile \<Rightarrow> string \<Rightarrow> jsval option \<Rightarrow> page \<Rightarrow> exn + page" where
  "reader_onload now random file result captured st =
     (let t = newTrack now random file result
      in case spread_append (p_playlist st) t of
           Inl e \<Rightarrow> Inl e
         | Inr pl \<Rightarrow>
             Inr (st\<lparr>p_playlist := pl,
                     p_currentTrack := (if captured = None then Some t
                                        else p_currentTrack st)\<rparr>))"

text \<open>
  \<open>createAudioUrl\<close>; \<open>object_url\<close> is what \<open>URL.createObjectURL\<close> returns.
\<close>

definition createAudioUrl :: "string \<Rightarrow> jsfile option \<Rightarrow> exn + string" where
  "createAudioUrl object_url file =
     (if \<not> validateAudioFile file
      then Inl (Error ''Invalid audio file format. Only MP3 files are supported.'')
      else Inr object_url)"

text \<open>
  \<open>getAudioMetadata\<close>: the promise resolves (\<open>Inr\<close>) or rejects (\<open>Inl\<close>).
  \<open>loaded\<close> is the duration when the audio element fires \<open>loadedmetadata\<close>, and
  \<open>None\<close> when it fires \<open>error\<close>.
\<close>

definition getAudioMetadata :: "string \<Rightarrow> real option \<Rightarrow> jsfile option \<Rightarrow> exn + jsval" where
  "getAudioMetadata object_url loaded file =
     (if \<not> validateAudioFile file then Inl (Error ''Invalid audio file'')
      else
        (case createAudioUrl object_url file of
           Inl e \<Rightarrow> Inl e
         | Inr url \<Rightarrow>
             (case (loaded, file) of
                (Some duration, Some f) \<Rightarrow>
                  Inr (VObj [(''name'', VStr (remove_extension (file_name f))),
                             (''duration'', VNum duration),
                             (''size'', VNum (real (file_size f))),
                             (''type'', VStr (file_type f)),
                             (''url'', VStr url)])
              | _ \<Rightarrow> Inl (Error ''Failed to load audio metadata''))))"


section \<open>The audio graph\<close>

text \<open>
  An analyser node: the two settings the program touches. What
  \<open>audioContext.createAnalyser()\<close> returns is the host's: the functions that call it
  take the new node as their argument \<open>fresh\<close>.
\<close>

record analyser =
  fftSize :: nat
  smoothingTimeConstant :: real

definition frequencyBinCount :: "analyser \<Rightarrow> nat" where
  "frequencyBinCount a = fftSize a div 2"

datatype context_state = Suspended | Running | Closed

datatype audio_context = Context context_state

text \<open>
  \<open>window.AudioContext\<close> and \<open>window.webkitAudioContext\<close>: absent, or a constructor
  with the outcome of \<open>new\<close>.
\<close>

record window =
  w_AudioContext :: "(exn + audio_context) option"
  w_webkitAudioContext :: "(exn + audio_context) option"

text \<open>
  \<open>new (window.AudioContext || window.webkitAudioContext)()\<close>; calling \<open>new\<close> on
  undefined is a \<open>TypeError\<close>.
\<close>

definition new_AudioContext :: "window \<Rightarrow> exn + audio_context" where
  "new_AudioContext w =
     (case w_AudioContext w of
        Some r \<Rightarrow> r
      | None \<Rightarrow> (case w_webkitAudioContext w of Some r \<Rightarrow> r | None \<Rightarrow> Inl TypeError))"

text \<open>\<open>createAudioContext\<close>: the context or null, and what was logged.\<close>

definition createAudioContext :: "window \<Rightarrow> exn + audio_context option \<times> string list" where
  "createAudioContext w =
     try_catch
       (case new_AudioContext w of Inl e \<Rightarrow> Inl e | Inr c \<Rightarrow> Inr (Some c, []))
       (\<lambda>error. Inr (None, [''Web Audio API not supported:'']))"

text \<open>
  \<open>connectAudioAnalyser\<close>: \<open>source\<close> is the outcome of
  \<open>createMediaElementSource\<close>, which raises when the element is already connected.
\<close>

definition connectAudioAnalyser ::
  "analyser \<Rightarrow> bool \<Rightarrow> audio_context option \<Rightarrow> exn + unit \<Rightarrow>
   exn + analyser option \<times> string list" where
  "connectAudioAnalyser fresh audioElement audioContext source =
     try_catch
       (if audioContext = None \<or> \<not> audioElement then Inr (None, [])
        else
          (case source of
             Inl e \<Rightarrow> Inl e
           | Inr u \<Rightarrow>
               (let analyser = fresh;
                    analyser = analyser\<lparr>fftSize := 256\<rparr>;
                    analyser = analyser\<lparr>smoothingTimeConstant := 0.8\<rparr>
                in Inr (Some analyser, []))))
       (\<lambda>error. Inr (None, [''Failed to connect audio analyser:'']))"

text \<open>
  \<open>getFrequencyData\<close>: the analyser fills an array of \<open>frequencyBinCount\<close> bytes;
  \<open>sample\<close> is what it measures.
\<close>

definition getFrequencyData :: "(nat \<Rightarrow> byte) \<Rightarrow> analyser option \<Rightarrow> byte list" where
  "getFrequencyData sample analyser =
     (case analyser of
        None \<Rightarrow> []
      | Some a \<Rightarrow> map sample [0..<frequencyBinCount a])"

section \<open>The AudioVisualizer component\<close>

text \<open>
  The component's props, state and refs, the animation frames it has requested and the
  browser has neither run nor cancelled (each with the \<open>isPlaying\<close> its \<open>draw\<close>
  closure captured), the next request id, and a log of the analyser's settings at each
  \<open>getByteFrequencyData\<close>. The canvas exists while the component is mounted.
\<close>

record visualizer =
  v_mounted :: bool
  v_audioElement :: bool
  v_isPlaying :: bool
  v_isInitialized :: bool
  v_audioContextRef :: "audio_context option"
  v_analyserRef :: "analyser option"
  v_sourceRef :: bool
  v_dataArrayRef :: "nat option"
  v_animationRef :: "nat option"
  v_init_cleanup :: bool
  v_cleanup :: bool
  v_frames :: "(nat \<times> bool) list"
  v_next_frame :: nat
  v_reads :: "analyser list"
  v_console :: "string list"

text \<open>
  \<open>if (animationRef.current) cancelAnimationFrame(animationRef.current)\<close>; request
  ids are positive, and 0 would be falsy.
\<close>

definition v_cancel :: "visualizer \<Rightarrow> visualizer" where
  "v_cancel s =
     (case v_animationRef s of
        None \<Rightarrow> s
      | Some i \<Rightarrow> if i = 0 then s
                  else s\<lparr>v_frames := filter (\<lambda>f. fst f \<noteq> i) (v_frames s)\<rparr>)"

text \<open>
  \<open>initializeAudioContext\<close> of the component, with the outcomes of \<open>new AudioContext\<close>
  and of \<open>createMediaElementSource\<close>. An exception ends it at the \<open>catch\<close>, after the
  assignments made so far.
\<close>

definition AudioVisualizer_initializeAudioContext ::
  "analyser \<Rightarrow> exn + audio_context \<Rightarrow> exn + unit \<Rightarrow> visualizer \<Rightarrow> visualizer" where
  "AudioVisualizer_initializeAudioContext fresh ctx source s =
     (if v_audioContextRef s \<noteq> None then s
      else
        (case ctx of
           Inl e \<Rightarrow> s\<lparr>v_console := v_console s @ [''Error initializing audio context:'']\<rparr>
         | Inr c \<Rightarrow>
             (let a = fresh\<lparr>fftSize := 256\<rparr>;
                  s1 = s\<lparr>v_audioContextRef := Some c,
                         v_analyserRef := Some a,
                         v_dataArrayRef := Some (frequencyBinCount a)\<rparr>
              in if v_sourceRef s1 then s1\<lparr>v_isInitialized := True\<rparr>
                 else
                   (case source of
                      Inl e \<Rightarrow>
                        s1\<lparr>v_console := v_console s1 @ [''Error initializing audio context:'']\<rparr>
                    | Inr u \<Rightarrow> s1\<lparr>v_sourceRef := True, v_isInitialized := True\<rparr>))))"

text \<open>The first effect (on \<open>audioElement\<close>): initialise, and register the cleanup.\<close>

definition v_init_effect ::
  "analyser \<Rightarrow> exn + audio_context \<Rightarrow> exn + unit \<Rightarrow> visualizer \<Rightarrow> visualizer" where
  "v_init_effect fresh ctx source s =
     (if \<not> v_audioElement s then s
      else (AudioVisualizer_initializeAudioContext fresh ctx source s)
             \<lparr>v_init_cleanup := True\<rparr>)"

text \<open>
  \<open>draw\<close>, with the \<open>isPlaying\<close> its closure captured: read the frequency data, paint,
  request the next frame.
\<close>

definition draw :: "bool \<Rightarrow> visualizer \<Rightarrow> visualizer" where
  "draw isPlaying s =
     (if \<not> isPlaying then s
      else
        s\<lparr>v_reads := v_reads s @ (case v_analyserRef s of None \<Rightarrow> [] | Some a \<Rightarrow> [a]),
          v_animationRef := Some (v_next_frame s),
          v_frames := v_frames s @ [(v_next_frame s, isPlaying)],
          v_next_frame := v_next_frame s + 1\<rparr>)"

text \<open>
  The second effect (on \<open>isPlaying\<close> and \<open>isInitialized\<close>), run with the values of the
  render: first the cleanup that its previous run returned, then its body.
\<close>

definition v_animation_effect :: "bool \<Rightarrow> bool \<Rightarrow> visualizer \<Rightarrow> visualizer" where
  "v_animation_effect isPlaying isInitialized s =
     (let s1 = (if v_cleanup s then v_cancel s else s)
      in if \<not> isInitialized \<or> \<not> isPlaying \<or> \<not> v_mounted s1 \<or> v_analyserRef s1 = None
         then (v_cancel s1)\<lparr>v_cleanup := False\<rparr>
         else (draw isPlaying s1)\<lparr>v_cleanup := True\<rparr>)"

text \<open>
  Mounting: both effects run with the state of the first render, where
  \<open>isInitialized\<close> is false; when the first effect has set it, the component renders
  again and the second effect runs with the new value.
\<close>

definition v_mount ::
  "analyser \<Rightarrow> bool \<Rightarrow> bool \<Rightarrow> exn + audio_context \<Rightarrow> exn + unit \<Rightarrow> visualizer" where
  "v_mount fresh audioElement isPlaying ctx source =
     (let s0 = \<lparr>v_mounted = True, v_audioElement = audioElement, v_isPlaying = isPlaying,
                v_isInitialized = False, v_audioContextRef = None, v_analyserRef = None,
                v_sourceRef = False, v_dataArrayRef = None, v_animationRef = None,
                v_init_cleanup = False, v_cleanup = False, v_frames = [],
                v_next_frame = 1, v_reads = [], v_console = []\<rparr>;
          s1 = v_init_effect fresh ctx source s0;
          s2 = v_animation_effect isPlaying False s1
      in if v_isInitialized s2 then v_animation_effect isPlaying True s2 else s2)"

datatype v_event = Play | Pause | Frame nat | Unmount

text \<open>
  One event: the parent sets \<open>isPlaying\<close>, the browser runs a requested frame, or the
  component unmounts and the cleanups of both effects run.
\<close>

definition v_set_playing :: "bool \<Rightarrow> visualizer \<Rightarrow> visualizer" where
  "v_set_playing p s =
     (if \<not> v_mounted s \<or> v_isPlaying s = p then s
      else v_animation_effect p (v_isInitialized s) (s\<lparr>v_isPlaying := p\<rparr>))"

fun v_step :: "v_event \<Rightarrow> visualizer \<Rightarrow> visualizer" where
  "v_step Play s = v_set_playing True s"
| "v_step Pause s = v_set_playing False s"
| "v_step (Frame i) s =
     (case find (\<lambda>f. fst f = i) (v_frames s) of
        None \<Rightarrow> s
      | Some f \<Rightarrow> draw (snd f) (s\<lparr>v_frames := filter (\<lambda>g. fst g \<noteq> i) (v_frames s)\<rparr>))"
| "v_step Unmount s =
     (if \<not> v_mounted s then s
      else
        (let s1 = (if v_init_cleanup s then v_cancel s else s);
             s2 = (if v_cleanup s1 then v_cancel s1 else s1)
         in s2\<lparr>v_mounted := False, v_init_cleanup := False, v_cleanup := False\<rparr>))"

definition v_run :: "v_event list \<Rightarrow> visualizer \<Rightarrow> visualizer" where
  "v_run es s = foldl (\<lambda>s e. v_step e s) s es"

section \<open>The page's visualisation loop\<close>

text \<open>
  The page (Home): the state and refs that \<open>togglePlayPause\<close> touches, the animation
  frames requested and neither run nor cancelled (their callback is
  \<open>updateVisualization\<close>), the next request id and the log of analyser settings at each
  \<open>getByteFrequencyData\<close>. The audio element exists while the page is mounted.
\<close>

record home =
  h_mounted :: bool
  h_currentTrack :: bool
  h_isPlaying :: bool
  h_audioContextRef :: "audio_context option"
  h_analyserRef :: "analyser option"
  h_dataArrayRef :: "nat option"
  h_animationRef :: "nat option"
  h_frames :: "nat list"
  h_next_frame :: nat
  h_reads :: "analyser list"
  h_console :: "string list"

text \<open>
  What the host does during one \<open>togglePlayPause\<close>: the outcome of each call, and
  the node that \<open>createAnalyser()\<close> returns.
\<close>

record outcome =
  o_resume :: "exn + unit"
  o_context :: "exn + audio_context"
  o_analyser :: analyser
  o_source :: "exn + unit"
  o_play :: "exn + unit"

definition h_cancel :: "home \<Rightarrow> home" where
  "h_cancel s =
     (case h_animationRef s of
        None \<Rightarrow> s
      | Some i \<Rightarrow> if i = 0 then s else s\<lparr>h_frames := filter (\<lambda>f. f \<noteq> i) (h_frames s)\<rparr>)"

text \<open>
  \<open>initializeAudioContext\<close> of the page: the exception it raises, if any, and the
  state with the assignments made until then.
\<close>

definition Home_initializeAudioContext ::
  "analyser \<Rightarrow> exn + audio_context \<Rightarrow> exn + unit \<Rightarrow> home \<Rightarrow> exn option \<times> home" where
  "Home_initializeAudioContext fresh ctx source s =
     (if h_audioContextRef s = None \<and> h_mounted s
      then
        (case ctx of
           Inl e \<Rightarrow> (Some e, s)
         | Inr c \<Rightarrow>
             (let s1 = s\<lparr>h_audioContextRef := Some c, h_analyserRef := Some fresh\<rparr>
              in case source of
                   Inl e \<Rightarrow> (Some e, s1)
                 | Inr u \<Rightarrow>
                     (let a = fresh\<lparr>fftSize := 256\<rparr>
                      in (None, s1\<lparr>h_analyserRef := Some a,
                                   h_dataArrayRef := Some (frequencyBinCount a)\<rparr>))))
      else (None, s))"

definition updateVisualization :: "home \<Rightarrow> home" where
  "updateVisualization s =
     (let s1 = (case (h_analyserRef s, h_dataArrayRef s) of
                  (Some a, Some n) \<Rightarrow> s\<lparr>h_reads := h_reads s @ [a]\<rparr>
                | _ \<Rightarrow> s)
      in s1\<lparr>h_animationRef := Some (h_next_frame s1),
             h_frames := h_frames s1 @ [h_next_frame s1],
             h_next_frame := h_next_frame s1 + 1\<rparr>)"

definition h_log :: "home \<Rightarrow> home" where
  "h_log s = s\<lparr>h_console := h_console s @ [''Error playing audio:'']\<rparr>"

text \<open>
  \<open>togglePlayPause\<close>; each \<open>await\<close> is taken to complete before the next event.
\<close>

definition togglePlayPause :: "outcome \<Rightarrow> home \<Rightarrow> home" where
  "togglePlayPause out s =
     (if \<not> h_currentTrack s \<or> \<not> h_mounted s then s
      else if h_isPlaying s then (h_cancel s)\<lparr>h_isPlaying := False\<rparr>
      else
        (let suspended = (h_audioContextRef s = Some (Context Suspended))
         in if suspended \<and> isl (o_resume out) then h_log s
            else
              (let s1 = (if suspended then s\<lparr>h_audioContextRef := Some (Context Running)\<rparr>
                         else s)
               in case Home_initializeAudioContext (o_analyser out) (o_context out)
                         (o_source out) s1 of
                    (Some e, s2) \<Rightarrow> h_log s2
                  | (None, s2) \<Rightarrow>
                      if isl (o_play out) then h_log s2
                      else (updateVisualization s2)\<lparr>h_isPlaying := True\<rparr>)))"

definition handleEnded :: "home \<Rightarrow> home" where
  "handleEnded s = (h_cancel s)\<lparr>h_isPlaying := False\<rparr>"

datatype h_event = Toggle outcome | Ended | HFrame nat | HUnmount

text \<open>
  One event of the page. Unmounting runs no cleanup: the page registers none.
\<close>

fun h_step :: "h_event \<Rightarrow> home \<Rightarrow> home" where
  "h_step (Toggle out) s = togglePlayPause out s"
| "h_step Ended s = (if h_mounted s then handleEnded s else s)"
| "h_step (HFrame i) s =
     (if i \<in> set (h_frames s)
      then updateVisualization (s\<lparr>h_frames := filter (\<lambda>f. f \<noteq> i) (h_frames s)\<rparr>)
      else s)"
| "h_step HUnmount s = s\<lparr>h_mounted := False\<rparr>"

definition h_mount :: "bool \<Rightarrow> home" where
  "h_mount track =
     \<lparr>h_mounted = True, h_currentTrack = track, h_isPlaying = False,
      h_audioContextRef = None, h_analyserRef = None, h_dataArrayRef = None,
      h_animationRef = None, h_frames = [], h_next_frame = 1, h_reads = [],
      h_console = []\<rparr>"

definition h_run :: "h_event list \<Rightarrow> home \<Rightarrow> home" where
  "h_run es s = foldl (\<lambda>s e. h_step e s) s es"

text \<open>
  The host in which every call succeeds and a new analyser has the Web Audio defaults,
  an FFT size of 2048 and a smoothing time constant of 0.8.
\<close>

definition all_fine :: outcome where
  "all_fine = \<lparr>o_resume = Inr (), o_context = Inr (Context Running),
               o_analyser = \<lparr>fftSize = 2048, smoothingTimeConstant = 0.8\<rparr>,
               o_source = Inr (), o_play = Inr ()\<rparr>"

section \<open>Invariants of the two loops\<close>

text \<open>
  What the components make of the new node \<open>fresh\<close>: they assign the FFT size and
  leave the smoothing time constant as it came.
\<close>

definition configured :: "analyser \<Rightarrow> analyser \<Rightarrow> bool" where
  "configured fresh a =
     (fftSize a = 256 \<and> smoothingTimeConstant a = smoothingTimeConstant fresh)"

text \<open>
  AudioVisualizer: at most one frame is requested, it is the one \<open>animationRef\<close> holds,
  and one is requested only in a mounted, playing component whose effect has registered
  its cleanup; the analyser, once created, has the FFT size 256 and the smoothing of the
  new node, and so had it at each read.
\<close>

definition v_inv :: "analyser \<Rightarrow> visualizer \<Rightarrow> bool" where
  "v_inv fresh s =
     (0 < v_next_frame s
      \<and> (v_frames s \<noteq> [] \<longrightarrow>
            v_mounted s \<and> v_isPlaying s \<and> v_cleanup s
            \<and> (\<exists>i. i \<noteq> 0 \<and> v_animationRef s = Some i \<and> v_frames s = [(i, True)]))
      \<and> (\<forall>a. v_analyserRef s = Some a \<longrightarrow> configured fresh a)
      \<and> (\<forall>a\<in>set (v_reads s). configured fresh a))"


text \<open>
  Page: at most one frame is requested, it is the one \<open>animationRef\<close> holds, and one is
  requested only while \<open>isPlaying\<close> is set, which needs a current track.
\<close>

definition h_loop_inv :: "home \<Rightarrow> bool" where
  "h_loop_inv s =
     (0 < h_next_frame s
      \<and> (h_isPlaying s \<longrightarrow> h_currentTrack s)
      \<and> (h_frames s \<noteq> [] \<longrightarrow>
            h_isPlaying s
            \<and> (\<exists>i. i \<noteq> 0 \<and> h_animationRef s = Some i \<and> h_frames s = [i])))"

section \<open>Properties of file validation\<close>

lemma endsWith_suffix: "endsWith s ext = suffix ext s"
proof
  assume "endsWith s ext"
  then have "s = take (length s - length ext) s @ ext"
    by (metis append_take_drop_id endsWith_def)
  then show "suffix ext s"
    by (metis suffixI)
next
  assume "suffix ext s"
  then obtain p where "s = p @ ext"
    by (auto simp: suffix_def)
  then show "endsWith s ext"
    by (simp add: endsWith_def)
qed

text \<open>
  C1 (as stated, refuted). A one-byte file of type audio/mp3 named \<open>song\<close> satisfies
  the specification's rule, yet \<open>handleFileSelect\<close> rejects it with the MP3-only
  message. A file \<open>Song.MP3\<close> of unknown type satisfies the rule, yet
  \<open>handleFileUpload\<close> does not keep it. A file of 60MB fails the rule, yet
  \<open>validateAudioFile\<close> accepts it and \<open>handleFileUpload\<close> keeps it.
\<close>

theorem file_acceptance_counterexample:
  "spec_accepted \<lparr>file_name = ''song'', file_type = ''audio/mp3'', file_size = 1\<rparr>
   \<and> handleFileSelect (Some \<lparr>file_name = ''song'', file_type = ''audio/mp3'', file_size = 1\<rparr>)
       = (''Please select an MP3 file only'', None)
   \<and> spec_accepted \<lparr>file_name = ''Song.MP3'', file_type = '''', file_size = 1\<rparr>
   \<and> mp3Files [\<lparr>file_name = ''Song.MP3'', file_type = '''', file_size = 1\<rparr>] = []
   \<and> \<not> spec_accepted
         \<lparr>file_name = ''song.mp3'', file_type = ''audio/mpeg'', file_size = 62914560\<rparr>
   \<and> validateAudioFile
         (Some \<lparr>file_name = ''song.mp3'', file_type = ''audio/mpeg'', file_size = 62914560\<rparr>)
   \<and> mp3Files [\<lparr>file_name = ''song.mp3'', file_type = ''audio/mpeg'', file_size = 62914560\<rparr>]
       = [\<lparr>file_name = ''song.mp3'', file_type = ''audio/mpeg'', file_size = 62914560\<rparr>]"
  by (simp add: spec_accepted_def handleFileSelect_def mp3Files_def validateAudioFile_def
      endsWith_def toLowerCase_def toLowerChar_def suffix_def)

text \<open>
  C1 (amended). Each path has its own rule.
  \<open>handleFileSelect\<close> hands a file on exactly when its type is audio/mpeg or its name
  ends case-insensitively in .mp3, and its size is at most 50MB; every other file is
  rejected with an error message.
  \<open>validateAudioFile\<close> accepts exactly the files of type audio/mp3 or audio/mpeg or with
  a name ending case-insensitively in .mp3, whatever their size.
  \<open>handleFileUpload\<close> keeps exactly the files of type audio/mpeg.
\<close>

theorem file_acceptance_by_path:
  "(snd (handleFileSelect (Some f)) = Some f) =
     ((file_type f = ''audio/mpeg'' \<or> suffix ''.mp3'' (toLowerCase (file_name f)))
      \<and> file_size f \<le> 52428800)
   \<and> (snd (handleFileSelect (Some f)) = None \<and> fst (handleFileSelect (Some f)) \<noteq> '''') =
     (\<not> ((file_type f = ''audio/mpeg'' \<or> suffix ''.mp3'' (toLowerCase (file_name f)))
      \<and> file_size f \<le> 52428800))
   \<and> validateAudioFile (Some f) =
     (file_type f = ''audio/mp3'' \<or> file_type f = ''audio/mpeg''
      \<or> suffix ''.mp3'' (toLowerCase (file_name f)))
   \<and> (f \<in> set (mp3Files fs)) = (f \<in> set fs \<and> file_type f = ''audio/mpeg'')"
  by (auto simp: handleFileSelect_def validateAudioFile_def mp3Files_def endsWith_suffix
      Let_def)

section \<open>Properties of time formatting\<close>

lemma floor_rem60: "0 \<le> (s::real) \<Longrightarrow> 0 \<le> s - 60 * of_int \<lfloor>s / 60\<rfloor>"
proof -
  have "of_int \<lfloor>s / 60\<rfloor> \<le> s / 60" by (rule of_int_floor_le)
  then show ?thesis by simp
qed

text \<open>
  The three functions on a finite non-negative number of seconds whose minutes
  JavaScript prints in plain decimal (below \<open>10^21\<close>).
\<close>

lemma formatTime_finite:
  assumes "0 \<le> s" and "s < 60 * 10 ^ 21"
  shows "formatTime (Some (Fin s)) =
           dec (nat \<lfloor>s / 60\<rfloor>) @ '':'' @
           padStart 2 CHR ''0'' (dec (nat \<lfloor>s - 60 * of_int \<lfloor>s / 60\<rfloor>\<rfloor>))"
proof (cases "s = 0")
  case True
  then show ?thesis
    by (simp add: formatTime_def falsy_def padStart_def)
next
  case False
  have "\<not> s - 60 * of_int \<lfloor>s / 60\<rfloor> < 0"
    using floor_rem60 [OF assms(1)] by simp
  moreover have "0 \<le> \<lfloor>s / 60\<rfloor>" "0 \<le> \<lfloor>s - 60 * of_int \<lfloor>s / 60\<rfloor>\<rfloor>"
    using assms(1) floor_rem60 [OF assms(1)] by simp_all
  ultimately show ?thesis
    using False assms(1)
    by (simp add: formatTime_def falsy_def isNaN_def toNumber_def div60_def rem60_def
        Math_floor_def toString_def abs_of_nonneg)
qed

lemma formatTime_Home_finite:
  assumes "0 \<le> s" and "s < 60 * 10 ^ 21"
  shows "formatTime_Home (Some (Fin s)) =
           dec (nat \<lfloor>s / 60\<rfloor>) @ '':'' @
           padStart 2 CHR ''0'' (dec (nat \<lfloor>s - 60 * of_int \<lfloor>s / 60\<rfloor>\<rfloor>))"
proof -
  have "\<not> s - 60 * of_int \<lfloor>s / 60\<rfloor> < 0"
    using floor_rem60 [OF assms(1)] by simp
  moreover have "0 \<le> \<lfloor>s / 60\<rfloor>" "0 \<le> \<lfloor>s - 60 * of_int \<lfloor>s / 60\<rfloor>\<rfloor>"
    using assms(1) floor_rem60 [OF assms(1)] by simp_all
  ultimately show ?thesis
    using assms(1)
    by (simp add: formatTime_Home_def toNumber_def div60_def rem60_def
        Math_floor_def toString_def abs_of_nonneg)
qed

lemma formatTime_MusicPlayer_finite:
  assumes "0 \<le> s" and "s < 60 * 10 ^ 21"
  shows "formatTime_MusicPlayer (Some (Fin s)) =
           dec (nat \<lfloor>s / 60\<rfloor>) @ '':'' @
           padStart 2 CHR ''0'' (dec (nat \<lfloor>s - 60 * of_int \<lfloor>s / 60\<rfloor>\<rfloor>))"
proof -
  have "\<not> s - 60 * of_int \<lfloor>s / 60\<rfloor> < 0"
    using floor_rem60 [OF assms(1)] by simp
  moreover have "0 \<le> \<lfloor>s / 60\<rfloor>" "0 \<le> \<lfloor>s - 60 * of_int \<lfloor>s / 60\<rfloor>\<rfloor>"
    using assms(1) floor_rem60 [OF assms(1)] by simp_all
  ultimately show ?thesis
    using assms(1)
    by (simp add: formatTime_MusicPlayer_def isNaN_def toNumber_def div60_def rem60_def
        Math_floor_def toString_def abs_of_nonneg)
qed

lemma formatTime_guarded_NaN:
  "formatTime (Some NaN) = ''0:00'' \<and> formatTime None = ''0:00''
   \<and> formatTime_MusicPlayer (Some NaN) = ''0:00'' \<and> formatTime_MusicPlayer None = ''0:00''"
  by (simp add: formatTime_def formatTime_MusicPlayer_def falsy_def isNaN_def toNumber_def)

text \<open>
  C6. On a finite non-negative number all three \<open>formatTime\<close> functions return the
  minutes, a colon and the two-digit seconds (the three lemmas above), and the utility
  and the MusicPlayer functions return \<open>0:00\<close> for NaN and for a missing argument.
  The page's function has no such guard: for NaN and for a missing argument it returns
  \<open>NaN:NaN\<close>, not \<open>0:00\<close>.
\<close>

theorem formatTime_Home_NaN:
  "formatTime_Home (Some NaN) = ''NaN:NaN'' \<and> formatTime_Home None = ''NaN:NaN''"
  by (simp add: formatTime_Home_def toNumber_def div60_def rem60_def Math_floor_def
      toString_def padStart_def)

section \<open>Properties of the average frequency\<close>

lemma foldl_sum_bytes:
  "foldl (\<lambda>acc v. acc + real (unat v)) a xs = a + (\<Sum>v\<leftarrow>xs. real (unat (v::byte)))"
  by (induction xs arbitrary: a) (simp_all del: of_nat_unat)

lemma unat_byte_le: "real (unat (v::byte)) \<le> 255"
proof -
  have "unat v < 2 ^ LENGTH(8)" by (rule unsigned_less)
  then have "unat v \<le> 255" by simp
  then have "real (unat v) \<le> real 255" by (rule of_nat_mono)
  then show ?thesis by (simp del: of_nat_unat)
qed

lemma sum_bytes_le: "(\<Sum>v\<leftarrow>xs. real (unat (v::byte))) \<le> 255 * real (length xs)"
proof (induction xs)
  case Nil
  then show ?case by simp
next
  case (Cons v xs)
  have "real (unat v) \<le> 255"
    by (rule unat_byte_le)
  with Cons show ?case by (simp del: of_nat_unat)
qed

lemma sum_bytes_nonneg: "0 \<le> (\<Sum>v\<leftarrow>xs. real (unat (v::byte)))"
  by (induction xs) (simp_all del: of_nat_unat)

text \<open>
  C10. \<open>getAverageFrequency\<close> returns 0 for a null and for an empty array; for a
  non-empty array it returns the arithmetic mean of the entries, which lies between 0
  and 255.
\<close>

theorem getAverageFrequency_mean:
  "getAverageFrequency None = 0
   \<and> getAverageFrequency (Some []) = 0
   \<and> (xs \<noteq> [] \<longrightarrow>
        getAverageFrequency (Some xs) = (\<Sum>v\<leftarrow>xs. real (unat v)) / real (length xs)
        \<and> 0 \<le> getAverageFrequency (Some xs)
        \<and> getAverageFrequency (Some xs) \<le> 255)"
proof -
  have mean: "getAverageFrequency (Some xs) = (\<Sum>v\<leftarrow>xs. real (unat v)) / real (length xs)"
    if "xs \<noteq> []"
    using that by (simp add: getAverageFrequency_def foldl_sum_bytes del: of_nat_unat)
  have lo: "0 \<le> (\<Sum>v\<leftarrow>xs. real (unat v)) / real (length xs)"
    using sum_bytes_nonneg [of xs] by simp
  have hi: "(\<Sum>v\<leftarrow>xs. real (unat v)) / real (length xs) \<le> 255" if "xs \<noteq> []"
  proof -
    have "0 < real (length xs)" using that by simp
    then show ?thesis
      using sum_bytes_le [of xs] by (simp add: pos_divide_le_eq)
  qed
  show ?thesis
    using mean lo hi by (simp add: getAverageFrequency_def)
qed

theorem getAverageFrequency_mean_witness:
  "getAverageFrequency (Some [10, 20, 60]) = 30 \<and> getAverageFrequency (Some [255, 255]) = 255
   \<and> getAverageFrequency (Some []) = 0 \<and> getAverageFrequency None = 0"
  using getAverageFrequency_mean [of "[10, 20, 60]"] getAverageFrequency_mean [of "[255, 255]"]
  by simp

section \<open>Properties of playlist navigation\<close>

lemma findIndexFrom_first:
  "i < length xs \<Longrightarrow> P (xs ! i) \<Longrightarrow> \<forall>j<i. \<not> P (xs ! j) \<Longrightarrow>
   findIndexFrom P xs k = k + int i"
proof (induction xs arbitrary: i k)
  case Nil
  then show ?case by simp
next
  case (Cons x xs)
  show ?case
  proof (cases i)
    case 0
    with Cons.prems show ?thesis by simp
  next
    case (Suc n)
    with Cons.prems have "\<not> P x" by auto
    moreover have "findIndexFrom P xs (k + 1) = k + 1 + int n"
      using Cons.prems Suc by (intro Cons.IH) auto
    ultimately show ?thesis using Suc by simp
  qed
qed

lemma findIndexFrom_absent:
  "\<forall>x\<in>set xs. \<not> P x \<Longrightarrow> findIndexFrom P xs k = - 1"
  by (induction xs arbitrary: k) auto

text \<open>
  C8. On a non-empty playlist, when the current track's id first occurs at position
  \<open>i\<close>, \<open>handleNext\<close> passes the track at position \<open>i + 1\<close>, or the first track
  when \<open>i\<close> is the last position, and \<open>handlePrevious\<close> passes the track at position
  \<open>i - 1\<close>, or the last track when \<open>i\<close> is 0. When there is no current track or its
  id occurs nowhere in the playlist, \<open>handleNext\<close> passes the first track and
  \<open>handlePrevious\<close> the last.
\<close>

theorem handleNext_handlePrevious_wrap:
  assumes "pl \<noteq> []"
  shows "(\<forall>i c. currentTrack = Some c \<and> i < length pl \<and> track_id (pl ! i) = track_id c
              \<and> (\<forall>j<i. track_id (pl ! j) \<noteq> track_id c) \<longrightarrow>
            handleNext (Some pl) currentTrack =
              Called (Some (pl ! (if i = length pl - 1 then 0 else i + 1)))
            \<and> handlePrevious (Some pl) currentTrack =
              Called (Some (pl ! (if i = 0 then length pl - 1 else i - 1))))
         \<and> ((case currentTrack of None \<Rightarrow> True
              | Some c \<Rightarrow> \<forall>t\<in>set pl. track_id t \<noteq> track_id c) \<longrightarrow>
            handleNext (Some pl) currentTrack = Called (Some (hd pl))
            \<and> handlePrevious (Some pl) currentTrack = Called (Some (last pl)))"
proof (intro conjI allI impI)
  fix i c
  assume h: "currentTrack = Some c \<and> i < length pl \<and> track_id (pl ! i) = track_id c
              \<and> (\<forall>j<i. track_id (pl ! j) \<noteq> track_id c)"
  then have idx: "findIndex (same_id currentTrack) pl = int i"
    using findIndexFrom_first [of i pl "same_id currentTrack" 0]
    by (simp add: findIndex_def same_id_def)
  from h have len: "i < length pl" by simp
  show "handleNext (Some pl) currentTrack =
          Called (Some (pl ! (if i = length pl - 1 then 0 else i + 1)))"
    using assms len idx
    by (auto simp: handleNext_def at_index_def Let_def nat_add_distrib)
  show "handlePrevious (Some pl) currentTrack =
          Called (Some (pl ! (if i = 0 then length pl - 1 else i - 1)))"
    using assms len idx
    by (auto simp: handlePrevious_def at_index_def Let_def nat_diff_distrib)
next
  assume "case currentTrack of None \<Rightarrow> True
          | Some c \<Rightarrow> \<forall>t\<in>set pl. track_id t \<noteq> track_id c"
  then have "\<forall>t\<in>set pl. \<not> same_id currentTrack t"
    by (auto simp: same_id_def split: option.splits)
  then have idx: "findIndex (same_id currentTrack) pl = - 1"
    by (simp add: findIndex_def findIndexFrom_absent)
  show "handleNext (Some pl) currentTrack = Called (Some (hd pl))"
    using assms idx by (simp add: handleNext_def at_index_def hd_conv_nth)
  have "nat (int (length pl) - 1) = length pl - 1"
    by simp
  then show "handlePrevious (Some pl) currentTrack = Called (Some (last pl))"
    using assms idx
    by (simp add: handlePrevious_def at_index_def last_conv_nth)
qed

theorem handleNext_handlePrevious_wrap_witness:
  "handleNext (Some [\<lparr>track_id = 1, track_name = ''a'', track_url = ''u''\<rparr>,
                    \<lparr>track_id = 2, track_name = ''b'', track_url = ''v''\<rparr>,
                    \<lparr>track_id = 3, track_name = ''c'', track_url = ''w''\<rparr>])
      (Some \<lparr>track_id = 3, track_name = ''c'', track_url = ''w''\<rparr>)
     = Called (Some \<lparr>track_id = 1, track_name = ''a'', track_url = ''u''\<rparr>)
   \<and> handlePrevious (Some [\<lparr>track_id = 1, track_name = ''a'', track_url = ''u''\<rparr>,
                    \<lparr>track_id = 2, track_name = ''b'', track_url = ''v''\<rparr>,
                    \<lparr>track_id = 3, track_name = ''c'', track_url = ''w''\<rparr>])
      (Some \<lparr>track_id = 3, track_name = ''c'', track_url = ''w''\<rparr>)
     = Called (Some \<lparr>track_id = 2, track_name = ''b'', track_url = ''v''\<rparr>)
   \<and> handleNext (Some [\<lparr>track_id = 1, track_name = ''a'', track_url = ''u''\<rparr>,
                    \<lparr>track_id = 2, track_name = ''b'', track_url = ''v''\<rparr>,
                    \<lparr>track_id = 3, track_name = ''c'', track_url = ''w''\<rparr>]) None
     = Called (Some \<lparr>track_id = 1, track_name = ''a'', track_url = ''u''\<rparr>)
   \<and> handlePrevious (Some [\<lparr>track_id = 1, track_name = ''a'', track_url = ''u''\<rparr>,
                    \<lparr>track_id = 2, track_name = ''b'', track_url = ''v''\<rparr>,
                    \<lparr>track_id = 3, track_name = ''c'', track_url = ''w''\<rparr>]) None
     = Called (Some \<lparr>track_id = 3, track_name = ''c'', track_url = ''w''\<rparr>)"
proof -
  let ?a = "\<lparr>track_id = 1, track_name = ''a'', track_url = ''u''\<rparr>"
  let ?b = "\<lparr>track_id = 2, track_name = ''b'', track_url = ''v''\<rparr>"
  let ?c = "\<lparr>track_id = 3, track_name = ''c'', track_url = ''w''\<rparr>"
  have ne: "[?a, ?b, ?c] \<noteq> []" by simp
  note w = handleNext_handlePrevious_wrap [OF ne]
  have "handleNext (Some [?a, ?b, ?c]) (Some ?c) = Called (Some ?a)
        \<and> handlePrevious (Some [?a, ?b, ?c]) (Some ?c) = Called (Some ?b)"
    using w [of "Some ?c", THEN conjunct1, THEN spec, of 2, THEN spec, of ?c]
    by (simp add: numeral_2_eq_2 All_less_Suc)
  moreover have "handleNext (Some [?a, ?b, ?c]) None = Called (Some ?a)
        \<and> handlePrevious (Some [?a, ?b, ?c]) None = Called (Some ?c)"
    using w [of None, THEN conjunct2] by simp
  ultimately show ?thesis by simp
qed

section \<open>Properties of JSON and local storage\<close>


lemma load_after_save:
  assumes "Home_save_effect pl b = Inr b'"
  shows "Home_load_effect b' old =
           (case serialize pl of None \<Rightarrow> Inl SyntaxError | Some j \<Rightarrow> Inr (revive j))"
  using assms
  by (auto simp: Home_save_effect_def Home_load_effect_def setItem_def getItem_def
      JSON_stringify_def String_of_def truthy_def JSON_parse_def
      split: if_splits option.splits)

lemma serialize_newTrack:
  "serialize (newTrack now random file result) =
     Some (JObj [(''id'', JNum (now + random)),
                 (''name'', JStr (replace_first ''.mp3'' '''' (file_name file))),
                 (''url'', JStr result),
                 (''file'', JObj [])])"
  by (simp add: newTrack_def)

text \<open>
  C2 (as stated, refuted). A playlist of one track created by \<open>handleFileUpload\<close> is
  saved under \<open>musicPlayerPlaylist\<close>; what the load effect then reads is not that
  playlist: the track's \<open>file\<close>, a \<open>File\<close>, has come back as an empty object.
\<close>

theorem playlist_round_trip_counterexample:
  "Home_save_effect
     (VArr [newTrack 1700000000000 (1 / 2)
              \<lparr>file_name = ''song.mp3'', file_type = ''audio/mpeg'', file_size = 4\<rparr>
              ''data:audio/mpeg;base64,AAAA''])
     \<lparr>localStorage = Map.empty, quota_ok = (\<lambda>m k v. True), console = []\<rparr>
   = Inr \<lparr>localStorage =
            [''musicPlayerPlaylist'' \<mapsto>
               JSON_text (JArr [JObj [(''id'', JNum (1700000000000 + 1 / 2)),
                                      (''name'', JStr ''song''),
                                      (''url'', JStr ''data:audio/mpeg;base64,AAAA''),
                                      (''file'', JObj [])]])],
          quota_ok = (\<lambda>m k v. True), console = []\<rparr>
   \<and> Home_load_effect
       \<lparr>localStorage =
            [''musicPlayerPlaylist'' \<mapsto>
               JSON_text (JArr [JObj [(''id'', JNum (1700000000000 + 1 / 2)),
                                      (''name'', JStr ''song''),
                                      (''url'', JStr ''data:audio/mpeg;base64,AAAA''),
                                      (''file'', JObj [])]])],
          quota_ok = (\<lambda>m k v. True), console = []\<rparr>
       (VArr [])
     = Inr (VArr [VObj [(''id'', VNum (1700000000000 + 1 / 2)),
                        (''name'', VStr ''song''),
                        (''url'', VStr ''data:audio/mpeg;base64,AAAA''),
                        (''file'', VObj [])]])
   \<and> VArr [VObj [(''id'', VNum (1700000000000 + 1 / 2)),
                  (''name'', VStr ''song''),
                  (''url'', VStr ''data:audio/mpeg;base64,AAAA''),
                  (''file'', VObj [])]]
     \<noteq> VArr [newTrack 1700000000000 (1 / 2)
              \<lparr>file_name = ''song.mp3'', file_type = ''audio/mpeg'', file_size = 4\<rparr>
              ''data:audio/mpeg;base64,AAAA'']"
  by (simp add: Home_save_effect_def Home_load_effect_def setItem_def getItem_def
      JSON_stringify_def String_of_def truthy_def JSON_parse_def newTrack_def)

text \<open>
  C2 (amended). Take a playlist whose tracks are objects with a number \<open>id\<close>, strings
  \<open>name\<close> and \<open>url\<close>, and a \<open>file\<close> that is a \<open>File\<close> (as \<open>handleFileUpload\<close>
  creates the track) or an empty object (as a reload leaves it). When the write under
  \<open>musicPlayerPlaylist\<close> succeeds, loading it back yields a sequence of the same length
  in the same order in which every track keeps its id, name and url and has an empty
  object as its \<open>file\<close>; it is the saved sequence verbatim when no track held a
  \<open>File\<close>.
\<close>

theorem playlist_round_trip:
  assumes "Home_save_effect
             (VArr (map (\<lambda>(i, n, u, f).
                VObj [(''id'', VNum i), (''name'', VStr n), (''url'', VStr u), (''file'', f)])
                  ts)) b
           = Inr b'"
    and "\<forall>(i, n, u, f)\<in>set ts. f = VObj [] \<or> (\<exists>x. f = VFile x)"
  shows "Home_load_effect b' old =
           Inr (VArr (map (\<lambda>(i, n, u, f).
                  VObj [(''id'', VNum i), (''name'', VStr n), (''url'', VStr u),
                        (''file'', VObj [])]) ts))
         \<and> ((\<forall>(i, n, u, f)\<in>set ts. f = VObj []) \<longrightarrow>
              Home_load_effect b' old =
                Inr (VArr (map (\<lambda>(i, n, u, f).
                  VObj [(''id'', VNum i), (''name'', VStr n), (''url'', VStr u),
                        (''file'', f)]) ts)))"
proof -
  let ?saved = "\<lambda>(i, n, u, f).
     VObj [(''id'', VNum i), (''name'', VStr n), (''url'', VStr u), (''file'', f)]"
  let ?loaded = "\<lambda>(i :: real, n, u, f :: jsval).
     VObj [(''id'', VNum i), (''name'', VStr n), (''url'', VStr u), (''file'', VObj [])]"
  have one: "revive (case serialize (?saved t) of None \<Rightarrow> JNull | Some j \<Rightarrow> j) = ?loaded t"
    if "t \<in> set ts" for t
    using that assms(2) by (cases t) auto
  have "map (revive \<circ> (\<lambda>x. case serialize x of None \<Rightarrow> JNull | Some j \<Rightarrow> j)) (map ?saved ts)
        = map ?loaded ts"
    using one by simp
  then have loaded: "Home_load_effect b' old = Inr (VArr (map ?loaded ts))"
    using load_after_save [OF assms(1), of old] by simp
  have "map ?loaded ts = map ?saved ts" if "\<forall>(i, n, u, f)\<in>set ts. f = VObj []"
    using that by (intro map_cong) auto
  with loaded show ?thesis
    by simp
qed

theorem playlist_round_trip_witness:
  "Home_load_effect
       \<lparr>localStorage =
            [''musicPlayerPlaylist'' \<mapsto>
               JSON_text (JArr [JObj [(''id'', JNum 7), (''name'', JStr ''a''),
                                      (''url'', JStr ''data:a''), (''file'', JObj [])],
                                JObj [(''id'', JNum 9), (''name'', JStr ''b''),
                                      (''url'', JStr ''data:b''), (''file'', JObj [])]])],
          quota_ok = (\<lambda>m k v. True), console = []\<rparr>
       (VArr [])
   = Inr (VArr [VObj [(''id'', VNum 7), (''name'', VStr ''a''),
                      (''url'', VStr ''data:a''), (''file'', VObj [])],
                VObj [(''id'', VNum 9), (''name'', VStr ''b''),
                      (''url'', VStr ''data:b''), (''file'', VObj [])]])"
proof -
  let ?fa = "\<lparr>file_name = ''a.mp3'', file_type = ''audio/mpeg'', file_size = 1\<rparr>"
  let ?b = "\<lparr>localStorage = Map.empty, quota_ok = (\<lambda>m k v. True), console = []\<rparr>"
  let ?b' = "\<lparr>localStorage =
            [''musicPlayerPlaylist'' \<mapsto>
               JSON_text (JArr [JObj [(''id'', JNum 7), (''name'', JStr ''a''),
                                      (''url'', JStr ''data:a''), (''file'', JObj [])],
                                JObj [(''id'', JNum 9), (''name'', JStr ''b''),
                                      (''url'', JStr ''data:b''), (''file'', JObj [])]])],
          quota_ok = (\<lambda>m k v. True), console = []\<rparr>"
  let ?ts = "[(7, ''a'', ''data:a'', VFile ?fa), (9, ''b'', ''data:b'', VObj [])]"
  have saved: "Home_save_effect
          (VArr (map (\<lambda>(i, n, u, f).
                VObj [(''id'', VNum i), (''name'', VStr n), (''url'', VStr u), (''file'', f)])
             ?ts)) ?b = Inr ?b'"
    by (simp add: Home_save_effect_def setItem_def JSON_stringify_def String_of_def)
  have files: "\<forall>(i, n, u, f)\<in>set ?ts. f = VObj [] \<or> (\<exists>x. f = VFile x)"
    by simp
  show ?thesis
    using playlist_round_trip [OF saved files, of "VArr []"] by simp
qed

lemma loadFromLocalStorage_returns:
  "\<exists>v b'. loadFromLocalStorage key b = Inr (v, b')"
  by (simp add: loadFromLocalStorage_def try_catch_def JSON_parse_def
      split: option.split item.split)

lemma saveToLocalStorage_returns:
  "\<exists>b'. saveToLocalStorage now key audioData b = Inr b'"
  by (simp add: saveToLocalStorage_def try_catch_def setItem_def Let_def)

lemma removeFromLocalStorage_returns:
  "\<exists>b'. removeFromLocalStorage key b = Inr b'"
  by (simp add: removeFromLocalStorage_def try_catch_def)

lemma Home_load_effect_raises:
  assumes "getItem b ''musicPlayerPlaylist'' = Some (Other_text s)" and "s \<noteq> []"
  shows "Home_load_effect b pl = Inl SyntaxError"
  using assms by (simp add: Home_load_effect_def truthy_def JSON_parse_def)

lemma Home_save_effect_raises:
  assumes "\<not> quota_ok b (localStorage b) ''musicPlayerPlaylist''
               (String_of (JSON_stringify pl))"
  shows "Home_save_effect pl b = Inl QuotaExceededError"
  using assms by (simp add: Home_save_effect_def setItem_def)

text \<open>
  C4. The storage utilities catch what they raise: \<open>loadFromLocalStorage\<close>,
  \<open>saveToLocalStorage\<close> and \<open>removeFromLocalStorage\<close> return normally in every
  browser (the lemmas above). The page's load effect does not: with a stored string
  that is no JSON text, \<open>JSON.parse\<close> raises \<open>SyntaxError\<close> and the exception leaves
  the effect, where \<open>loadFromLocalStorage\<close> on the same storage logs and returns null.
\<close>

theorem Home_load_effect_corrupted_JSON:
  "Home_load_effect
     \<lparr>localStorage = [''musicPlayerPlaylist'' \<mapsto> Other_text ''[{'id':''],
      quota_ok = (\<lambda>m k v. True), console = []\<rparr>
     (VArr [])
   = Inl SyntaxError
   \<and> loadFromLocalStorage ''musicPlayerPlaylist''
     \<lparr>localStorage = [''musicPlayerPlaylist'' \<mapsto> Other_text ''[{'id':''],
      quota_ok = (\<lambda>m k v. True), console = []\<rparr>
   = Inr (VNull,
        \<lparr>localStorage = [''musicPlayerPlaylist'' \<mapsto> Other_text ''[{'id':''],
         quota_ok = (\<lambda>m k v. True),
         console = [''Failed to load from localStorage:'']\<rparr>)"
  by (simp add: Home_load_effect_def loadFromLocalStorage_def try_catch_def getItem_def
      truthy_def JSON_parse_def console_error_def)








section \<open>Properties of track creation\<close>

lemma replace_first_extension:
  "CHR ''.'' \<notin> set base \<Longrightarrow> replace_first ''.mp3'' '''' (base @ ''.mp3'') = base"
  by (induction base) auto

lemma replace_first_final:
  assumes "pat \<noteq> []" and "\<forall>i<length base. \<not> prefix pat (drop i (base @ pat))"
  shows "replace_first pat [] (base @ pat) = base"
  using assms(2)
proof (induction base)
  case Nil
  with assms(1) show ?case by (cases pat) simp_all
next
  case (Cons b bs)
  from Cons.prems have "\<not> prefix pat (drop 0 ((b # bs) @ pat))"
    by blast
  then have first: "\<not> prefix pat (b # bs @ pat)"
    by simp
  have "\<forall>i<length bs. \<not> prefix pat (drop i (bs @ pat))"
  proof (intro allI impI)
    fix i
    assume "i < length bs"
    then have "Suc i < length (b # bs)" by simp
    with Cons.prems have "\<not> prefix pat (drop (Suc i) ((b # bs) @ pat))"
      by blast
    then show "\<not> prefix pat (drop i (bs @ pat))" by simp
  qed
  then have "replace_first pat [] (bs @ pat) = bs"
    by (rule Cons.IH)
  with first show ?case by simp
qed

lemma remove_extension_last:
  assumes "ext \<noteq> []" and "CHR ''.'' \<notin> set ext" and "CHR ''/'' \<notin> set ext"
  shows "remove_extension (base @ ''.'' @ ext) = base"
proof -
  have "takeWhile (\<lambda>c. c \<noteq> CHR ''.'') (rev ext @ CHR ''.'' # rev base) = rev ext"
    using assms(2) by (subst takeWhile_append2) auto
  then show ?thesis
    using assms by (simp add: remove_extension_def)
qed

lemma getAudioMetadata_fields:
  assumes "validateAudioFile (Some f)"
  shows "getAudioMetadata object_url (Some duration) (Some f) =
           Inr (VObj [(''name'', VStr (remove_extension (file_name f))),
                      (''duration'', VNum duration),
                      (''size'', VNum (real (file_size f))),
                      (''type'', VStr (file_type f)),
                      (''url'', VStr object_url)])"
  using assms by (simp add: getAudioMetadata_def createAudioUrl_def)

text \<open>
  C3 (as stated, refuted). The track that \<open>handleFileUpload\<close> creates has no
  \<open>duration\<close> field: its fields are id, name, url and file. Its name is the file name
  with the first occurrence of \<open>.mp3\<close> removed, which for \<open>live.mp3.remix.mp3\<close> is
  not the name without its extension.
\<close>

theorem track_fields_counterexample:
  "keys (newTrack 1700000000000 (1 / 4)
           \<lparr>file_name = ''live.mp3.remix.mp3'', file_type = ''audio/mpeg'', file_size = 4\<rparr>
           ''data:audio/mpeg;base64,AAAA'')
     = [''id'', ''name'', ''url'', ''file'']
   \<and> get_prop ''duration'' (newTrack 1700000000000 (1 / 4)
           \<lparr>file_name = ''live.mp3.remix.mp3'', file_type = ''audio/mpeg'', file_size = 4\<rparr>
           ''data:audio/mpeg;base64,AAAA'')
     = VUndefined
   \<and> get_prop ''name'' (newTrack 1700000000000 (1 / 4)
           \<lparr>file_name = ''live.mp3.remix.mp3'', file_type = ''audio/mpeg'', file_size = 4\<rparr>
           ''data:audio/mpeg;base64,AAAA'')
     = VStr ''live.remix.mp3''"
  by (simp add: keys_def get_prop_def newTrack_def)

text \<open>
  C3 (amended). Every track that \<open>handleFileUpload\<close> creates is an object with exactly
  the fields id, name, url and file, in this order: id is the timestamp plus the random
  value, url is the reader's result, file is the selected file, and for every file name
  whose first \<open>.mp3\<close> is its final suffix (a base followed by \<open>.mp3\<close>, with no
  \<open>.mp3\<close> starting inside the base) the name is the base, the file name with its
  extension removed. The track is appended to the playlist.
\<close>

theorem track_fields:
  "keys (newTrack now random file result) = [''id'', ''name'', ''url'', ''file'']
   \<and> get_prop ''id'' (newTrack now random file result) = VNum (now + random)
   \<and> get_prop ''url'' (newTrack now random file result) = VStr result
   \<and> get_prop ''file'' (newTrack now random file result) = VFile file
   \<and> (\<forall>base. file_name file = base @ ''.mp3''
              \<and> (\<forall>i<length base. \<not> prefix ''.mp3'' (drop i (file_name file))) \<longrightarrow>
         get_prop ''name'' (newTrack now random file result) = VStr base)
   \<and> reader_onload now random file result captured
        \<lparr>p_playlist = VArr pl, p_currentTrack = cur\<rparr>
      = Inr \<lparr>p_playlist = VArr (pl @ [newTrack now random file result]),
             p_currentTrack = (if captured = None
                               then Some (newTrack now random file result) else cur)\<rparr>"
proof (intro conjI allI impI)
  show "keys (newTrack now random file result) = [''id'', ''name'', ''url'', ''file'']"
    by (simp add: keys_def newTrack_def)
  show "get_prop ''id'' (newTrack now random file result) = VNum (now + random)"
    by (simp add: get_prop_def newTrack_def)
  show "get_prop ''url'' (newTrack now random file result) = VStr result"
    by (simp add: get_prop_def newTrack_def)
  show "get_prop ''file'' (newTrack now random file result) = VFile file"
    by (simp add: get_prop_def newTrack_def)
  show "reader_onload now random file result captured
        \<lparr>p_playlist = VArr pl, p_currentTrack = cur\<rparr>
      = Inr \<lparr>p_playlist = VArr (pl @ [newTrack now random file result]),
             p_currentTrack = (if captured = None
                               then Some (newTrack now random file result) else cur)\<rparr>"
    by (simp add: reader_onload_def spread_append_def Let_def)
next
  fix base
  assume h: "file_name file = base @ ''.mp3''
              \<and> (\<forall>i<length base. \<not> prefix ''.mp3'' (drop i (file_name file)))"
  then have "\<forall>i<length base. \<not> prefix ''.mp3'' (drop i (base @ ''.mp3''))"
    by metis
  then have "replace_first ''.mp3'' [] (base @ ''.mp3'') = base"
    by (intro replace_first_final) simp
  moreover have "get_prop ''name'' (newTrack now random file result)
                 = VStr (replace_first ''.mp3'' [] (file_name file))"
    by (simp add: get_prop_def newTrack_def)
  ultimately show "get_prop ''name'' (newTrack now random file result) = VStr base"
    using h by simp
qed

theorem track_fields_witness:
  "get_prop ''name'' (newTrack 1700000000000 (1 / 4)
      \<lparr>file_name = ''My.Song.mp3'', file_type = ''audio/mpeg'', file_size = 4\<rparr> ''data:a'')
   = VStr ''My.Song''
   \<and> get_prop ''id'' (newTrack 1700000000000 (1 / 4)
      \<lparr>file_name = ''My.Song.mp3'', file_type = ''audio/mpeg'', file_size = 4\<rparr> ''data:a'')
   = VNum (1700000000000 + 1 / 4)"
proof -
  let ?f = "\<lparr>file_name = ''My.Song.mp3'', file_type = ''audio/mpeg'', file_size = 4\<rparr>"
  have final: "file_name ?f = ''My.Song'' @ ''.mp3''
     \<and> (\<forall>i<length ''My.Song''. \<not> prefix ''.mp3'' (drop i (file_name ?f)))"
    by (simp add: All_less_Suc)
  note t = track_fields [of 1700000000000 "1 / 4" ?f "''data:a''" None "[]" None]
  have "get_prop ''name'' (newTrack 1700000000000 (1 / 4) ?f ''data:a'') = VStr ''My.Song''"
    using t [THEN conjunct2, THEN conjunct2, THEN conjunct2, THEN conjunct2,
        THEN conjunct1, THEN spec, of "''My.Song''"] final
    by blast
  moreover have "get_prop ''id'' (newTrack 1700000000000 (1 / 4) ?f ''data:a'')
                 = VNum (1700000000000 + 1 / 4)"
    using t [THEN conjunct2, THEN conjunct1] .
  ultimately show ?thesis by simp
qed

section \<open>Properties of the AudioVisualizer loop\<close>

lemma v_cancel_fields [simp]:
  "v_next_frame (v_cancel s) = v_next_frame s"
  "v_mounted (v_cancel s) = v_mounted s"
  "v_isPlaying (v_cancel s) = v_isPlaying s"
  "v_cleanup (v_cancel s) = v_cleanup s"
  "v_animationRef (v_cancel s) = v_animationRef s"
  "v_analyserRef (v_cancel s) = v_analyserRef s"
  "v_reads (v_cancel s) = v_reads s"
  by (simp_all add: v_cancel_def split: option.split)

lemma draw_fields [simp]:
  "v_mounted (draw p s) = v_mounted s"
  "v_isPlaying (draw p s) = v_isPlaying s"
  "v_cleanup (draw p s) = v_cleanup s"
  "v_analyserRef (draw p s) = v_analyserRef s"
  by (simp_all add: draw_def)

lemma v_animation_effect_fields [simp]:
  "v_mounted (v_animation_effect p i s) = v_mounted s"
  "v_isPlaying (v_animation_effect p i s) = v_isPlaying s"
  "v_analyserRef (v_animation_effect p i s) = v_analyserRef s"
  by (simp_all add: v_animation_effect_def Let_def)

lemma v_cancel_frames:
  assumes "v_frames s \<noteq> [] \<longrightarrow>
             (\<exists>i. i \<noteq> 0 \<and> v_animationRef s = Some i \<and> v_frames s = [(i, b)])"
  shows "v_frames (v_cancel s) = []"
  using assms by (cases "v_frames s = []") (auto simp: v_cancel_def split: option.split)

lemma v_inv_no_frames:
  assumes "v_inv fresh s" and "v_frames t = []" and "v_next_frame t = v_next_frame s"
    and "v_analyserRef t = v_analyserRef s" and "v_reads t = v_reads s"
  shows "v_inv fresh t"
  using assms by (simp add: v_inv_def)

lemma draw_inv:
  assumes "v_inv fresh s" and "v_frames s = []" and "v_mounted s" and "v_isPlaying s"
  shows "v_inv fresh ((draw True s)\<lparr>v_cleanup := True\<rparr>)"
  using assms by (auto simp: v_inv_def draw_def split: option.splits)

lemma v_animation_effect_inv:
  assumes "v_inv fresh s0" and "v_frames s0 = [] \<or> v_cleanup s0"
  shows "v_inv fresh (v_animation_effect p i (s0\<lparr>v_isPlaying := p\<rparr>))"
proof -
  let ?s = "s0\<lparr>v_isPlaying := p\<rparr>"
  let ?s1 = "if v_cleanup ?s then v_cancel ?s else ?s"
  have "v_frames ?s \<noteq> [] \<longrightarrow>
          (\<exists>i. i \<noteq> 0 \<and> v_animationRef ?s = Some i \<and> v_frames ?s = [(i, True)])"
    using assms(1) by (simp add: v_inv_def)
  then have "v_frames (v_cancel ?s) = []"
    by (rule v_cancel_frames)
  then have empty: "v_frames ?s1 = []"
    using assms(2) by auto
  have s1: "v_inv fresh ?s1"
    by (rule v_inv_no_frames [OF assms(1) empty]) simp_all
  show ?thesis
  proof (cases "\<not> i \<or> \<not> p \<or> \<not> v_mounted ?s1 \<or> v_analyserRef ?s1 = None")
    case True
    have "v_frames (v_cancel ?s1) = []"
      using empty by (intro v_cancel_frames [where b = True]) simp
    then have "v_inv fresh ((v_cancel ?s1)\<lparr>v_cleanup := False\<rparr>)"
      by (intro v_inv_no_frames [OF s1]) simp_all
    moreover from True have "v_animation_effect p i ?s = (v_cancel ?s1)\<lparr>v_cleanup := False\<rparr>"
      unfolding v_animation_effect_def Let_def by (rule if_P)
    ultimately show ?thesis by simp
  next
    case False
    then have "v_mounted ?s1" "v_isPlaying ?s1"
      by auto
    then have "v_inv fresh ((draw True ?s1)\<lparr>v_cleanup := True\<rparr>)"
      using draw_inv s1 empty by blast
    moreover from False have "v_animation_effect p i ?s = (draw p ?s1)\<lparr>v_cleanup := True\<rparr>"
      unfolding v_animation_effect_def Let_def by (rule if_not_P)
    moreover from False have "p" by simp
    ultimately show ?thesis by simp
  qed
qed

lemma v_animation_effect_uninitialised:
  assumes "v_frames s = []"
  shows "v_frames (v_animation_effect p False s) = []"
proof -
  have "v_frames (v_cancel s) = []"
    using assms by (intro v_cancel_frames [where b = True]) simp
  then have "v_frames (v_cancel (if v_cleanup s then v_cancel s else s)) = []"
    using assms by (intro v_cancel_frames [where b = True]) simp
  then show ?thesis
    by (simp add: v_animation_effect_def Let_def)
qed

lemma v_set_playing_inv: "v_inv fresh s \<Longrightarrow> v_inv fresh (v_set_playing p s)"
proof -
  assume inv: "v_inv fresh s"
  then have "v_frames s = [] \<or> v_cleanup s"
    by (auto simp: v_inv_def)
  with inv have "v_inv fresh (v_animation_effect p (v_isInitialized s) (s\<lparr>v_isPlaying := p\<rparr>))"
    by (rule v_animation_effect_inv)
  with inv show ?thesis
    by (simp add: v_set_playing_def)
qed

lemma v_frame_inv: "v_inv fresh s \<Longrightarrow> v_inv fresh (v_step (Frame i) s)"
proof (cases "find (\<lambda>f. fst f = i) (v_frames s)")
  case None
  assume "v_inv fresh s"
  with None show ?thesis by simp
next
  case (Some f)
  assume inv: "v_inv fresh s"
  from Some have ne: "v_frames s \<noteq> []" by auto
  with inv obtain j where j: "j \<noteq> 0" "v_animationRef s = Some j" "v_frames s = [(j, True)]"
    and live: "v_mounted s" "v_isPlaying s" "v_cleanup s"
    by (auto simp: v_inv_def)
  from Some j(3) have f: "f = (i, True)" "j = i"
    by (auto split: if_splits)
  let ?s = "s\<lparr>v_frames := filter (\<lambda>g. fst g \<noteq> i) (v_frames s)\<rparr>"
  have "v_inv fresh ?s"
    using j f by (intro v_inv_no_frames [OF inv]) simp_all
  moreover have "v_frames ?s = []" "v_mounted ?s" "v_isPlaying ?s"
    using j f live by simp_all
  ultimately have "v_inv fresh ((draw True ?s)\<lparr>v_cleanup := True\<rparr>)"
    by (rule draw_inv)
  moreover have "(draw True ?s)\<lparr>v_cleanup := True\<rparr> = draw True ?s"
    using live by (simp add: draw_def)
  ultimately show ?thesis
    using Some f by simp
qed

lemma v_unmount_inv: "v_inv fresh s \<Longrightarrow> v_inv fresh (v_step Unmount s)"
proof (cases "v_mounted s")
  case False
  assume "v_inv fresh s"
  with False show ?thesis by simp
next
  case True
  assume inv: "v_inv fresh s"
  let ?s1 = "if v_init_cleanup s then v_cancel s else s"
  let ?s2 = "if v_cleanup ?s1 then v_cancel ?s1 else ?s1"
  have c: "v_frames s \<noteq> [] \<longrightarrow>
          (\<exists>i. i \<noteq> 0 \<and> v_animationRef s = Some i \<and> v_frames s = [(i, True)])"
    using inv by (simp add: v_inv_def)
  have cancelled: "v_frames (v_cancel s) = []"
    using c by (rule v_cancel_frames)
  have "v_frames s = [] \<or> v_cleanup s"
    using inv by (auto simp: v_inv_def)
  then have "v_frames ?s2 = []"
    using cancelled v_cancel_frames [of "v_cancel s" True] by auto
  then have "v_inv fresh (?s2\<lparr>v_mounted := False, v_init_cleanup := False, v_cleanup := False\<rparr>)"
    by (intro v_inv_no_frames [OF inv]) simp_all
  with True show ?thesis
    by (simp add: Let_def)
qed

lemma v_step_inv: "v_inv fresh s \<Longrightarrow> v_inv fresh (v_step e s)"
  by (cases e) (simp_all add: v_set_playing_inv v_frame_inv v_unmount_inv del: v_step.simps(3,4))

lemma v_run_inv: "v_inv fresh s \<Longrightarrow> v_inv fresh (v_run es s)"
  unfolding v_run_def by (induction es arbitrary: s) (simp_all add: v_step_inv)

lemma v_init_effect_inv:
  assumes "v_frames s = []" and "0 < v_next_frame s" and "v_analyserRef s = None"
    and "v_reads s = []"
  shows "v_inv fresh (v_init_effect fresh ctx source s)
         \<and> v_frames (v_init_effect fresh ctx source s) = []"
  using assms
  by (auto simp: v_inv_def v_init_effect_def AudioVisualizer_initializeAudioContext_def
      configured_def Let_def split: sum.splits)

lemma v_mount_inv: "v_inv fresh (v_mount fresh audioElement p ctx source)"
proof -
  let ?s0 = "\<lparr>v_mounted = True, v_audioElement = audioElement, v_isPlaying = p,
                v_isInitialized = False, v_audioContextRef = None, v_analyserRef = None,
                v_sourceRef = False, v_dataArrayRef = None, v_animationRef = None,
                v_init_cleanup = False, v_cleanup = False, v_frames = [],
                v_next_frame = 1, v_reads = [], v_console = []\<rparr>"
  let ?s1 = "v_init_effect fresh ctx source ?s0"
  let ?s2 = "v_animation_effect p False ?s1"
  have s1: "v_inv fresh ?s1" "v_frames ?s1 = []"
    using v_init_effect_inv [of ?s0 fresh ctx source] by simp_all
  have p1: "v_isPlaying ?s1 = p"
    by (simp add: v_init_effect_def AudioVisualizer_initializeAudioContext_def Let_def
        split: sum.splits)
  then have same1: "?s1\<lparr>v_isPlaying := p\<rparr> = ?s1"
    by simp
  have s2: "v_inv fresh ?s2"
    using v_animation_effect_inv [of fresh ?s1 p False] s1 same1 by simp
  have e2: "v_frames ?s2 = []"
    using s1(2) by (rule v_animation_effect_uninitialised)
  have "v_isPlaying ?s2 = p"
    using p1 by simp
  then have same2: "?s2\<lparr>v_isPlaying := p\<rparr> = ?s2"
    by simp
  have "v_inv fresh (v_animation_effect p True ?s2)"
    using v_animation_effect_inv [of fresh ?s2 p True] s2 e2 same2 by simp
  with s2 show ?thesis
    by (simp add: v_mount_def Let_def)
qed

lemma v_reachable_inv: "v_inv fresh (v_run es (v_mount fresh audioElement p ctx source))"
  by (rule v_run_inv [OF v_mount_inv])

lemma v_frames_only_while_playing:
  "v_frames (v_run es (v_mount fresh audioElement p ctx source)) \<noteq> [] \<Longrightarrow>
   v_mounted (v_run es (v_mount fresh audioElement p ctx source))
   \<and> v_isPlaying (v_run es (v_mount fresh audioElement p ctx source))"
  using v_reachable_inv [of fresh es audioElement p ctx source] by (simp add: v_inv_def)

lemma v_step_idle:
  assumes "\<not> (v_mounted s \<and> v_isPlaying s)" and "e \<noteq> Play"
  shows "\<not> (v_mounted (v_step e s) \<and> v_isPlaying (v_step e s))"
proof (cases e)
  case Play
  with assms(2) show ?thesis by simp
next
  case Pause
  with assms(1) show ?thesis by (auto simp: v_set_playing_def)
next
  case (Frame i)
  with assms(1) show ?thesis by (auto split: option.splits)
next
  case Unmount
  with assms(1) show ?thesis by (auto simp: Let_def)
qed

lemma v_run_idle:
  assumes "\<not> (v_mounted s \<and> v_isPlaying s)" and "Play \<notin> set es"
  shows "\<not> (v_mounted (v_run es s) \<and> v_isPlaying (v_run es s))"
  using assms unfolding v_run_def
proof (induction es arbitrary: s)
  case Nil
  then show ?case by simp
next
  case (Cons e es)
  from Cons.prems have "\<not> (v_mounted (v_step e s) \<and> v_isPlaying (v_step e s))"
    by (intro v_step_idle) auto
  with Cons show ?case by simp
qed

lemma v_stop_idle:
  assumes "e = Pause \<or> e = Unmount"
  shows "\<not> (v_mounted (v_step e s) \<and> v_isPlaying (v_step e s))"
  using assms by (auto simp: v_set_playing_def Let_def split: if_splits)

lemma v_run_append: "v_run (es @ es') s = v_run es' (v_run es s)"
  by (simp add: v_run_def)

text \<open>
  The AudioVisualizer component keeps the property of C7: in every run from mounting, a
  frame is requested only in a mounted, playing component, and after a pause or an
  unmount no frame is requested until the next play.
\<close>

lemma visualizer_frames_cancelled:
  assumes "e = Pause \<or> e = Unmount" and "Play \<notin> set es'"
  shows "v_frames (v_run (es @ e # es') (v_mount fresh audioElement p ctx source)) = []"
proof -
  let ?s = "v_run es (v_mount fresh audioElement p ctx source)"
  let ?t = "v_run (es @ e # es') (v_mount fresh audioElement p ctx source)"
  have t: "?t = v_run es' (v_step e ?s)"
    by (simp add: v_run_def)
  have "\<not> (v_mounted (v_step e ?s) \<and> v_isPlaying (v_step e ?s))"
    using assms(1) by (rule v_stop_idle)
  then have "\<not> (v_mounted ?t \<and> v_isPlaying ?t)"
    unfolding t using assms(2) by (rule v_run_idle)
  then show ?thesis
    using v_frames_only_while_playing [of "es @ e # es'" fresh audioElement p ctx source] by blast
qed

section \<open>Properties of the page's loop\<close>

lemma h_cancel_fields [simp]:
  "h_analyserRef (h_cancel s) = h_analyserRef s"
  "h_dataArrayRef (h_cancel s) = h_dataArrayRef s"
  "h_audioContextRef (h_cancel s) = h_audioContextRef s"
  "h_reads (h_cancel s) = h_reads s"
  by (simp_all add: h_cancel_def split: option.split)








section \<open>Properties of the audio graph\<close>

lemma createAudioContext_returns: "\<exists>r. createAudioContext w = Inr r"
  by (simp add: createAudioContext_def try_catch_def split: sum.split)

lemma connectAudioAnalyser_returns:
  "\<exists>r. connectAudioAnalyser fresh audioElement audioContext source = Inr r"
  by (simp add: connectAudioAnalyser_def try_catch_def split: sum.split)




section \<open>Properties of the page's frames\<close>

lemma h_cancel_loop:
  assumes "h_loop_inv s"
  shows "h_frames (h_cancel s) = []" and "h_next_frame (h_cancel s) = h_next_frame s"
  using assms
  by (cases "h_frames s = []"; auto simp: h_loop_inv_def h_cancel_def split: option.split)+

lemma updateVisualization_loop:
  assumes "0 < h_next_frame s" and "h_frames s = []" and "h_isPlaying s \<or> b"
    and "h_currentTrack s"
  shows "h_loop_inv ((updateVisualization s)\<lparr>h_isPlaying := h_isPlaying s \<or> b\<rparr>)"
  using assms
  by (auto simp: h_loop_inv_def updateVisualization_def Let_def split: option.splits)

lemma Home_initializeAudioContext_frames [simp]:
  "h_frames (snd (Home_initializeAudioContext fresh ctx source s)) = h_frames s"
  "h_next_frame (snd (Home_initializeAudioContext fresh ctx source s)) = h_next_frame s"
  "h_isPlaying (snd (Home_initializeAudioContext fresh ctx source s)) = h_isPlaying s"
  "h_currentTrack (snd (Home_initializeAudioContext fresh ctx source s)) = h_currentTrack s"
  by (simp_all add: Home_initializeAudioContext_def Let_def split: sum.split)

lemma togglePlayPause_loop: "h_loop_inv s \<Longrightarrow> h_loop_inv (togglePlayPause out s)"
proof -
  assume inv: "h_loop_inv s"
  consider (none) "\<not> h_currentTrack s \<or> \<not> h_mounted s"
    | (pause) "h_currentTrack s" "h_mounted s" "h_isPlaying s"
    | (play) "h_currentTrack s" "h_mounted s" "\<not> h_isPlaying s"
    by blast
  then show ?thesis
  proof cases
    case none
    with inv show ?thesis
      by (simp add: togglePlayPause_def)
  next
    case pause
    have "h_loop_inv ((h_cancel s)\<lparr>h_isPlaying := False\<rparr>)"
      using h_cancel_loop [OF inv] inv by (simp add: h_loop_inv_def)
    with pause show ?thesis
      by (simp add: togglePlayPause_def)
  next
    case play
    with inv have empty: "h_frames s = []" and pos: "0 < h_next_frame s"
      by (auto simp: h_loop_inv_def)
    let ?s1 = "if h_audioContextRef s = Some (Context Suspended)
               then s\<lparr>h_audioContextRef := Some (Context Running)\<rparr> else s"
    let ?r = "Home_initializeAudioContext (o_analyser out) (o_context out) (o_source out) ?s1"
    have r: "h_frames (snd ?r) = []" "0 < h_next_frame (snd ?r)" "h_currentTrack (snd ?r)"
      "\<not> h_isPlaying (snd ?r)"
      using empty pos play by simp_all
    have logged: "h_loop_inv (h_log (snd ?r))" "h_loop_inv (h_log s)"
      using r empty pos play by (simp_all add: h_loop_inv_def h_log_def)
    have "h_loop_inv ((updateVisualization (snd ?r))\<lparr>h_isPlaying := h_isPlaying (snd ?r) \<or> True\<rparr>)"
      using r by (intro updateVisualization_loop) simp_all
    then have played: "h_loop_inv ((updateVisualization (snd ?r))\<lparr>h_isPlaying := True\<rparr>)"
      by simp
    have "h_loop_inv (case ?r of
                 (Some e, s2) \<Rightarrow> h_log s2
               | (None, s2) \<Rightarrow>
                   if isl (o_play out) then h_log s2
                   else (updateVisualization s2)\<lparr>h_isPlaying := True\<rparr>)"
      using logged(1) played by (cases ?r) (simp split: option.split)
    with play logged(2) show ?thesis
      by (simp add: togglePlayPause_def Let_def)
  qed
qed

lemma h_step_loop: "h_loop_inv s \<Longrightarrow> h_loop_inv (h_step e s)"
proof (cases e)
  case (Toggle out)
  assume "h_loop_inv s"
  with Toggle show ?thesis by (simp add: togglePlayPause_loop)
next
  case Ended
  assume inv: "h_loop_inv s"
  have "h_loop_inv ((h_cancel s)\<lparr>h_isPlaying := False\<rparr>)"
    using h_cancel_loop [OF inv] inv by (simp add: h_loop_inv_def)
  with Ended inv show ?thesis by (simp add: handleEnded_def)
next
  case (HFrame i)
  assume inv: "h_loop_inv s"
  show ?thesis
  proof (cases "i \<in> set (h_frames s)")
    case False
    with inv HFrame show ?thesis by simp
  next
    case True
    with inv have one: "h_frames s = [i]" and playing: "h_isPlaying s"
      and pos: "0 < h_next_frame s" and track: "h_currentTrack s"
      by (auto simp: h_loop_inv_def)
    let ?s = "s\<lparr>h_frames := filter (\<lambda>f. f \<noteq> i) (h_frames s)\<rparr>"
    have "h_loop_inv ((updateVisualization ?s)\<lparr>h_isPlaying := h_isPlaying ?s \<or> False\<rparr>)"
      using one playing pos track by (intro updateVisualization_loop) simp_all
    moreover have "(updateVisualization ?s)\<lparr>h_isPlaying := h_isPlaying ?s \<or> False\<rparr>
                   = updateVisualization ?s"
      using playing by (simp add: updateVisualization_def Let_def split: option.split)
    ultimately show ?thesis
      using True HFrame by simp
  qed
next
  case HUnmount
  assume "h_loop_inv s"
  with HUnmount show ?thesis by (simp add: h_loop_inv_def)
qed

lemma h_run_loop: "h_loop_inv s \<Longrightarrow> h_loop_inv (h_run es s)"
  unfolding h_run_def by (induction es arbitrary: s) (simp_all add: h_step_loop)

text \<open>
  On the page a frame is requested only while \<open>isPlaying\<close> is set, and pausing or the
  end of the track cancels the requested frame.
\<close>

lemma Home_frames_only_while_playing:
  "h_frames (h_run es (h_mount track)) \<noteq> [] \<Longrightarrow> h_isPlaying (h_run es (h_mount track))"
proof -
  have "h_loop_inv (h_mount track)"
    by (simp add: h_loop_inv_def h_mount_def)
  then have "h_loop_inv (h_run es (h_mount track))"
    by (rule h_run_loop)
  then show "h_frames (h_run es (h_mount track)) \<noteq> [] \<Longrightarrow>
             h_isPlaying (h_run es (h_mount track))"
    by (simp add: h_loop_inv_def)
qed

lemma Home_pause_cancels:
  assumes "h_isPlaying (h_run es (h_mount track))"
    and "h_mounted (h_run es (h_mount track))"
    and "e = Toggle out \<or> e = Ended"
  shows "h_frames (h_run (es @ [e]) (h_mount track)) = []"
proof -
  let ?s = "h_run es (h_mount track)"
  have "h_loop_inv (h_mount track)"
    by (simp add: h_loop_inv_def h_mount_def)
  then have inv: "h_loop_inv ?s"
    by (rule h_run_loop)
  have run: "h_run (es @ [e]) (h_mount track) = h_step e ?s"
    by (simp add: h_run_def)
  have "h_currentTrack ?s"
    using inv assms(1) by (simp add: h_loop_inv_def)
  then have "\<not> h_isPlaying (h_step e ?s)"
    using assms
    by (auto simp: togglePlayPause_def handleEnded_def h_cancel_def split: option.split)
  moreover have "h_loop_inv (h_step e ?s)"
    using inv by (rule h_step_loop)
  ultimately show ?thesis
    unfolding run by (auto simp: h_loop_inv_def)
qed

text \<open>
  C7. The AudioVisualizer component keeps the property (lemmas
  \<open>v_frames_only_while_playing\<close> and \<open>visualizer_frames_cancelled\<close>), and the page keeps
  it for a pause (lemmas \<open>Home_frames_only_while_playing\<close> and \<open>Home_pause_cancels\<close>).
  The page does not keep it for an unmount: it registers no cleanup, so after
  play and unmount the requested frame 1 is still pending, and when the browser runs it
  \<open>updateVisualization\<close> requests frame 2 in the unmounted page.
\<close>

theorem Home_frame_requested_after_unmount:
  "h_frames (h_run [Toggle all_fine, HUnmount] (h_mount True)) = [1]
   \<and> h_frames (h_run [Toggle all_fine, HUnmount, HFrame 1] (h_mount True)) = [2]
   \<and> h_mounted (h_run [Toggle all_fine, HUnmount, HFrame 1] (h_mount True)) = False"
  by (simp add: h_run_def h_mount_def togglePlayPause_def all_fine_def
      Home_initializeAudioContext_def updateVisualization_def
      frequencyBinCount_def Let_def)

end
